theory Spec2Isabelle
  imports Main "HOL-Library.Product_Lexorder" "HOL-Library.Multiset"
begin

section \<open>Errors crossing the storage boundary\<close>

text \<open>
  The Go \<open>error\<close> values that occur in the repository and in the handlers.
  \<open>*pgconn.PgError\<close> is the driver's error struct; of its fields the code reads and
  writes \<open>Code\<close>, \<open>ConstraintName\<close> and \<open>Message\<close>, and \<open>Error()\<close> prints \<open>Severity\<close> as well;
  all others stay at their zero value.
\<close>

record PgError =
  Severity :: string
  Code :: string
  ConstraintName :: string
  Message :: string

datatype go_error =
    ErrNoRows  \<comment> \<open>\<open>sql.ErrNoRows\<close>, the sentinel the repository and the handlers compare with\<close>
  | PgxErrNoRows  \<comment> \<open>\<open>pgx.ErrNoRows\<close>, the error of a pgx query for one row that finds none\<close>
  | PgErr PgError  \<comment> \<open>\<open>*pgconn.PgError\<close>\<close>
  | DriverErr string  \<comment> \<open>any other error value the driver returns (connection lost, timeout, ...)\<close>
  | FmtErr string  \<comment> \<open>\<open>fmt.Errorf(...)\<close>\<close>

section \<open>Rows, users and the table\<close>

text \<open>\<open>pgtype.Timestamptz\<close>: a time (here a count of microseconds) and the validity flag.\<close>

record Timestamptz =
  Time :: int
  Valid :: bool

text \<open>\<open>repository.User\<close>, one row of the table \<open>users\<close>.\<close>

record user_row =
  row_id :: int
  row_username :: string
  row_email :: string
  row_password :: string
  row_created_at :: Timestamptz
  row_updated_at :: Timestamptz

text \<open>\<open>model.User\<close>. The zero value of \<open>time.Time\<close> is the time 0.\<close>

record User =
  ID :: int
  Username :: string
  Email :: string
  Password :: string
  CreatedAt :: int
  UpdatedAt :: int

text \<open>
  The storage: the rows of \<open>users\<close> in their physical order, the sequence behind the
  \<open>SERIAL\<close> column \<open>id\<close>, a script of driver failures (the head is what happens to the
  next query: \<open>None\<close> or an empty script lets it reach the table), a script of scans (the
  head is the order in which the storage reads the rows for the next \<open>ORDER BY\<close>, as a list
  of identifiers), and the log of the queries that were executed.
\<close>

record db =
  users :: "user_row list"
  next_id :: int
  faults :: "go_error option list"
  scans :: "int list list"
  calls :: "string list"

definition begin_query :: "string \<Rightarrow> db \<Rightarrow> go_error option \<times> db" where
  "begin_query name d =
     (case faults d of
        [] \<Rightarrow> (None, d\<lparr>calls := calls d @ [name]\<rparr>)
      | f # fs \<Rightarrow> (f, d\<lparr>faults := fs, calls := calls d @ [name]\<rparr>))"

definition next_scan :: "db \<Rightarrow> int list \<times> db" where
  "next_scan d = (case scans d of [] \<Rightarrow> ([], d) | s # ss \<Rightarrow> (s, d\<lparr>scans := ss\<rparr>))"

definition unique_violation :: "string \<Rightarrow> go_error" where
  "unique_violation c =
     PgErr \<lparr>Severity = ''ERROR'', Code = ''23505'', ConstraintName = c,
            Message = ''duplicate key value violates unique constraint''\<rparr>"

section \<open>The queries of db/queries/users.sql\<close>

text \<open>
  Each query is the SQL statement of the file, run on the table. The schema is the one of
  the README: \<open>id SERIAL PRIMARY KEY\<close>, \<open>username ... UNIQUE\<close>, \<open>email ... UNIQUE\<close>, whose
  constraints PostgreSQL names \<open>users_pkey\<close>, \<open>users_username_key\<close> and \<open>users_email_key\<close>
  and checks in this order. The queries run on the pgx pool, so a \<open>:one\<close> query that finds
  no row returns \<open>pgx.ErrNoRows\<close>, which is not the value \<open>sql.ErrNoRows\<close>.
\<close>

record CreateUserParams =
  cp_Username :: string
  cp_Email :: string
  cp_Password :: string
  cp_CreatedAt :: Timestamptz
  cp_UpdatedAt :: Timestamptz

definition q_CreateUser :: "CreateUserParams \<Rightarrow> db \<Rightarrow> (go_error + user_row) \<times> db" where
  "q_CreateUser p d0 =
     (case begin_query ''CreateUser'' d0 of
        (Some e, d) \<Rightarrow> (Inl e, d)
      | (None, d) \<Rightarrow>
          if next_id d > 2147483647
          then (Inl (PgErr \<lparr>Severity = ''ERROR'', Code = ''2200H'', ConstraintName = '''',
                            Message = ''nextval: reached maximum value of sequence''\<rparr>), d)
          else
            let row = \<lparr>row_id = next_id d, row_username = cp_Username p, row_email = cp_Email p,
                       row_password = cp_Password p, row_created_at = cp_CreatedAt p,
                       row_updated_at = cp_UpdatedAt p\<rparr>;
                d' = d\<lparr>next_id := next_id d + 1\<rparr>
            in if list_ex (\<lambda>r. row_id r = row_id row) (users d)
               then (Inl (unique_violation ''users_pkey''), d')
               else if list_ex (\<lambda>r. row_username r = row_username row) (users d)
               then (Inl (unique_violation ''users_username_key''), d')
               else if list_ex (\<lambda>r. row_email r = row_email row) (users d)
               then (Inl (unique_violation ''users_email_key''), d')
               else (Inr row, d'\<lparr>users := users d @ [row]\<rparr>))"

definition q_GetUserByID :: "int \<Rightarrow> db \<Rightarrow> (go_error + user_row) \<times> db" where
  "q_GetUserByID i d0 =
     (case begin_query ''GetUserByID'' d0 of
        (Some e, d) \<Rightarrow> (Inl e, d)
      | (None, d) \<Rightarrow>
          (case find (\<lambda>r. row_id r = i) (users d) of
             None \<Rightarrow> (Inl PgxErrNoRows, d)
           | Some r \<Rightarrow> (Inr r, d)))"

definition q_GetUserByEmail :: "string \<Rightarrow> db \<Rightarrow> (go_error + user_row) \<times> db" where
  "q_GetUserByEmail e0 d0 =
     (case begin_query ''GetUserByEmail'' d0 of
        (Some e, d) \<Rightarrow> (Inl e, d)
      | (None, d) \<Rightarrow>
          (case find (\<lambda>r. row_email r = e0) (users d) of
             None \<Rightarrow> (Inl PgxErrNoRows, d)
           | Some r \<Rightarrow> (Inr r, d)))"

text \<open>
  \<open>ORDER BY created_at DESC\<close>: PostgreSQL puts NULL first in a descending order. The
  statement names no second key, so SQL fixes no order among rows with equal \<open>created_at\<close>:
  they come in the order in which the storage happened to read them, which may differ from
  one query to the next. The storage reads first the rows whose identifiers the scan lists,
  in that order, then the others in table order, and sorts what it read by the key, rows
  with equal keys staying in the order read.
\<close>

definition created_desc_key :: "user_row \<Rightarrow> int \<times> int" where
  "created_desc_key r =
     (if Valid (row_created_at r) then (1, - Time (row_created_at r)) else (0, 0))"

definition scan_position :: "int list \<Rightarrow> user_row \<Rightarrow> nat" where
  "scan_position scan r = length (takeWhile (\<lambda>i. i \<noteq> row_id r) scan)"

definition order_by_created_at_desc :: "int list \<Rightarrow> user_row list \<Rightarrow> user_row list" where
  "order_by_created_at_desc scan rs =
     sort_key created_desc_key (sort_key (scan_position scan) rs)"

text \<open>The rows of \<open>GetAllUsers\<close> and \<open>GetUsersWithPagination\<close> have no password column.\<close>

record list_row =
  lr_id :: int
  lr_username :: string
  lr_email :: string
  lr_created_at :: Timestamptz
  lr_updated_at :: Timestamptz

definition select_list_row :: "user_row \<Rightarrow> list_row" where
  "select_list_row r =
     \<lparr>lr_id = row_id r, lr_username = row_username r, lr_email = row_email r,
      lr_created_at = row_created_at r, lr_updated_at = row_updated_at r\<rparr>"

definition q_GetAllUsers :: "db \<Rightarrow> (go_error + list_row list) \<times> db" where
  "q_GetAllUsers d0 =
     (case begin_query ''GetAllUsers'' d0 of
        (Some e, d) \<Rightarrow> (Inl e, d)
      | (None, d) \<Rightarrow>
          (case next_scan d of
             (scan, d') \<Rightarrow>
               (Inr (map select_list_row (order_by_created_at_desc scan (users d'))), d')))"

record UpdateUserParams =
  up_ID :: int
  up_Username :: string
  up_Email :: string
  up_UpdatedAt :: Timestamptz

definition set_user_columns :: "UpdateUserParams \<Rightarrow> user_row \<Rightarrow> user_row" where
  "set_user_columns p r =
     (if row_id r = up_ID p
      then r\<lparr>row_username := up_Username p, row_email := up_Email p,
             row_updated_at := up_UpdatedAt p\<rparr>
      else r)"

definition q_UpdateUser :: "UpdateUserParams \<Rightarrow> db \<Rightarrow> go_error option \<times> db" where
  "q_UpdateUser p d0 =
     (case begin_query ''UpdateUser'' d0 of
        (Some e, d) \<Rightarrow> (Some e, d)
      | (None, d) \<Rightarrow>
          if \<not> list_ex (\<lambda>r. row_id r = up_ID p) (users d) then (None, d)
          else if list_ex (\<lambda>r. row_id r \<noteq> up_ID p \<and> row_username r = up_Username p) (users d)
          then (Some (unique_violation ''users_username_key''), d)
          else if list_ex (\<lambda>r. row_id r \<noteq> up_ID p \<and> row_email r = up_Email p) (users d)
          then (Some (unique_violation ''users_email_key''), d)
          else (None, d\<lparr>users := map (set_user_columns p) (users d)\<rparr>))"

record UpdatePasswordParams =
  pp_ID :: int
  pp_Password :: string
  pp_UpdatedAt :: Timestamptz

definition q_UpdatePassword :: "UpdatePasswordParams \<Rightarrow> db \<Rightarrow> go_error option \<times> db" where
  "q_UpdatePassword p d0 =
     (case begin_query ''UpdatePassword'' d0 of
        (Some e, d) \<Rightarrow> (Some e, d)
      | (None, d) \<Rightarrow>
          (None, d\<lparr>users := map (\<lambda>r. if row_id r = pp_ID p
                                      then r\<lparr>row_password := pp_Password p,
                                             row_updated_at := pp_UpdatedAt p\<rparr>
                                      else r) (users d)\<rparr>))"

definition q_DeleteUser :: "int \<Rightarrow> db \<Rightarrow> go_error option \<times> db" where
  "q_DeleteUser i d0 =
     (case begin_query ''DeleteUser'' d0 of
        (Some e, d) \<Rightarrow> (Some e, d)
      | (None, d) \<Rightarrow> (None, d\<lparr>users := filter (\<lambda>r. row_id r \<noteq> i) (users d)\<rparr>))"

definition q_UserExists :: "string \<Rightarrow> db \<Rightarrow> (go_error + bool) \<times> db" where
  "q_UserExists e0 d0 =
     (case begin_query ''UserExists'' d0 of
        (Some e, d) \<Rightarrow> (Inl e, d)
      | (None, d) \<Rightarrow> (Inr (list_ex (\<lambda>r. row_email r = e0) (users d)), d))"

text \<open>\<open>LIMIT $1 OFFSET $2\<close>: PostgreSQL refuses a negative limit or offset.\<close>

definition q_GetUsersWithPagination :: "int \<Rightarrow> int \<Rightarrow> db \<Rightarrow> (go_error + list_row list) \<times> db" where
  "q_GetUsersWithPagination lim off d0 =
     (case begin_query ''GetUsersWithPagination'' d0 of
        (Some e, d) \<Rightarrow> (Inl e, d)
      | (None, d) \<Rightarrow>
          if lim < 0
          then (Inl (PgErr \<lparr>Severity = ''ERROR'', Code = ''2201W'', ConstraintName = '''',
                            Message = ''LIMIT must not be negative''\<rparr>), d)
          else if off < 0
          then (Inl (PgErr \<lparr>Severity = ''ERROR'', Code = ''2201X'', ConstraintName = '''',
                            Message = ''OFFSET must not be negative''\<rparr>), d)
          else (case next_scan d of
                  (scan, d') \<Rightarrow>
                    (Inr (map select_list_row
                            (take (nat lim) (drop (nat off)
                               (order_by_created_at_desc scan (users d'))))), d')))"

definition q_CountUsers :: "db \<Rightarrow> (go_error + int) \<times> db" where
  "q_CountUsers d0 =
     (case begin_query ''CountUsers'' d0 of
        (Some e, d) \<Rightarrow> (Inl e, d)
      | (None, d) \<Rightarrow> (Inr (int (length (users d))), d))"

section \<open>UserRepository\<close>

text \<open>
  The repository methods take the reading of \<open>time.Now()\<close> as the argument \<open>now\<close>. A method
  that writes through its \<open>*model.User\<close> argument returns the user as it leaves it.
\<close>

definition timestamptz :: "int \<Rightarrow> Timestamptz" where
  "timestamptz now = \<lparr>Time = now, Valid = True\<rparr>"

text \<open>
  The check for a unique constraint violation, written out twice in the source
  (in \<open>CreateUser\<close> and in \<open>UpdateUser\<close>): the value the method returns for the error \<open>err\<close>
  of the query.
\<close>

definition unique_check :: "go_error \<Rightarrow> go_error" where
  "unique_check err =
     (case err of
        PgErr pgErr \<Rightarrow>
          if Code pgErr = ''23505'' then
            if ConstraintName pgErr = ''users_email_unique''
               \<or> ConstraintName pgErr = ''users_email_key''
            then PgErr \<lparr>Severity = [], Code = ''23505'', ConstraintName = '''',
                        Message = ''user with this email already exists''\<rparr>
            else if ConstraintName pgErr = ''users_username_unique''
                    \<or> ConstraintName pgErr = ''users_username_key''
            then PgErr \<lparr>Severity = [], Code = ''23505'', ConstraintName = '''',
                        Message = ''user with this username already exists''\<rparr>
            else err
          else err
      | _ \<Rightarrow> err)"

definition repo_CreateUser :: "int \<Rightarrow> User \<Rightarrow> db \<Rightarrow> (go_error option \<times> User) \<times> db" where
  "repo_CreateUser now user d0 =
     (let params = \<lparr>cp_Username = Username user, cp_Email = Email user,
                    cp_Password = Password user, cp_CreatedAt = timestamptz now,
                    cp_UpdatedAt = timestamptz now\<rparr>
      in case q_CreateUser params d0 of
           (Inl err, d) \<Rightarrow> ((Some (unique_check err), user), d)
         | (Inr result, d) \<Rightarrow>
             ((None, user\<lparr>ID := row_id result, CreatedAt := now, UpdatedAt := now\<rparr>), d))"

definition sqlcUserToModelUser :: "user_row \<Rightarrow> User" where
  "sqlcUserToModelUser sqlcUser =
     \<lparr>ID = row_id sqlcUser, Username = row_username sqlcUser, Email = row_email sqlcUser,
      Password = row_password sqlcUser,
      CreatedAt = (if Valid (row_created_at sqlcUser) then Time (row_created_at sqlcUser) else 0),
      UpdatedAt = (if Valid (row_updated_at sqlcUser) then Time (row_updated_at sqlcUser) else 0)\<rparr>"

definition repo_GetUserByID :: "int \<Rightarrow> db \<Rightarrow> (go_error + User) \<times> db" where
  "repo_GetUserByID i d0 =
     (case q_GetUserByID i d0 of
        (Inl err, d) \<Rightarrow> (if err = ErrNoRows then (Inl ErrNoRows, d) else (Inl err, d))
      | (Inr result, d) \<Rightarrow> (Inr (sqlcUserToModelUser result), d))"

definition repo_GetUserByEmail :: "string \<Rightarrow> db \<Rightarrow> (go_error + User) \<times> db" where
  "repo_GetUserByEmail e0 d0 =
     (case q_GetUserByEmail e0 d0 of
        (Inl err, d) \<Rightarrow> (if err = ErrNoRows then (Inl ErrNoRows, d) else (Inl err, d))
      | (Inr result, d) \<Rightarrow> (Inr (sqlcUserToModelUser result), d))"

text \<open>The loop body of \<open>GetAllUsers\<close> and \<open>GetUsersWithPagination\<close>; \<open>Password\<close> stays empty.\<close>

definition list_row_to_user :: "list_row \<Rightarrow> User" where
  "list_row_to_user result =
     \<lparr>ID = lr_id result, Username = lr_username result, Email = lr_email result,
      Password = '''',
      CreatedAt = (if Valid (lr_created_at result) then Time (lr_created_at result) else 0),
      UpdatedAt = (if Valid (lr_updated_at result) then Time (lr_updated_at result) else 0)\<rparr>"

definition repo_GetAllUsers :: "db \<Rightarrow> (go_error + User list) \<times> db" where
  "repo_GetAllUsers d0 =
     (case q_GetAllUsers d0 of
        (Inl err, d) \<Rightarrow> (Inl err, d)
      | (Inr results, d) \<Rightarrow> (Inr (map list_row_to_user results), d))"

definition repo_UpdateUser :: "int \<Rightarrow> User \<Rightarrow> db \<Rightarrow> (go_error option \<times> User) \<times> db" where
  "repo_UpdateUser now user d0 =
     (let params = \<lparr>up_ID = ID user, up_Username = Username user, up_Email = Email user,
                    up_UpdatedAt = timestamptz now\<rparr>
      in case q_UpdateUser params d0 of
           (Some err, d) \<Rightarrow> ((Some (unique_check err), user), d)
         | (None, d) \<Rightarrow> ((None, user\<lparr>UpdatedAt := now\<rparr>), d))"

definition repo_UpdatePassword :: "int \<Rightarrow> int \<Rightarrow> string \<Rightarrow> db \<Rightarrow> go_error option \<times> db" where
  "repo_UpdatePassword now userID hashedPassword d0 =
     (let params = \<lparr>pp_ID = userID, pp_Password = hashedPassword,
                    pp_UpdatedAt = timestamptz now\<rparr>
      in case q_UpdatePassword params d0 of
           (Some err, d) \<Rightarrow> (Some err, d)
         | (None, d) \<Rightarrow> (None, d))"

definition repo_DeleteUser :: "int \<Rightarrow> db \<Rightarrow> go_error option \<times> db" where
  "repo_DeleteUser i d0 =
     (case q_DeleteUser i d0 of
        (Some err, d) \<Rightarrow> (Some err, d)
      | (None, d) \<Rightarrow> (None, d))"

definition repo_UserExists :: "string \<Rightarrow> db \<Rightarrow> (go_error + bool) \<times> db" where
  "repo_UserExists e0 d0 =
     (case q_UserExists e0 d0 of
        (Inl err, d) \<Rightarrow> (Inl err, d)
      | (Inr ex, d) \<Rightarrow> (Inr ex, d))"

definition repo_GetUsersWithPagination :: "int \<Rightarrow> int \<Rightarrow> db \<Rightarrow> (go_error + User list) \<times> db" where
  "repo_GetUsersWithPagination lim off d0 =
     (case q_GetUsersWithPagination lim off d0 of
        (Inl err, d) \<Rightarrow> (Inl err, d)
      | (Inr results, d) \<Rightarrow> (Inr (map list_row_to_user results), d))"

definition repo_CountUsers :: "db \<Rightarrow> (go_error + int) \<times> db" where
  "repo_CountUsers d0 =
     (case q_CountUsers d0 of
        (Inl err, d) \<Rightarrow> (Inl err, d)
      | (Inr n, d) \<Rightarrow> (Inr n, d))"

section \<open>Requests, responses and the gin context\<close>

text \<open>
  The fields a request body binds to. \<open>ShouldBindJSON\<close> decodes and validates the body
  outside these sources, so a request carries the outcome: the message of the binding
  error, or the bound fields (the update handler reads the first two).
\<close>

record user_fields =
  f_Username :: string
  f_Email :: string
  f_Password :: string

text \<open>
  A request. Its path is kept as the list of the segments that follow the leading slash:
  \<open>/api/v1/users/7\<close> is \<open>[api, v1, users, 7]\<close>, a trailing slash leaves an empty last segment
  (\<open>/ping/\<close> is \<open>[ping, []]\<close>) and \<open>/\<close> is \<open>[[]]\<close>. Its header lines are kept as the client
  sent them. \<open>RedirectURL\<close> is the URL the router computes when it redirects the request to
  the path without (or with) the trailing slash.
\<close>

record Request =
  Method :: string
  URLPath :: "string list"
  ReqHeader :: "(string \<times> string) list"
  URLQuery :: "(string \<times> string) list"
  JSONBody :: "string + user_fields"
  RedirectURL :: string

text \<open>
  What a request meets outside the store: the clock, \<open>crypto/rand\<close> (whether the read
  fails, and the bytes it yields, byte \<open>i\<close> being digit \<open>i\<close> of the seed in base 256), and
  the outcome of \<open>utils.HashPassword\<close>.
\<close>

record Env =
  Now :: int
  RandFails :: bool
  RandSeed :: int
  HashResult :: "go_error + string"

record UserResponse =
  ur_ID :: int
  ur_Username :: string
  ur_Email :: string
  ur_CreatedAt :: int
  ur_UpdatedAt :: int

datatype json =
    JString string
  | JInt int
  | JBool bool
  | JUser UserResponse
  | JUsers "UserResponse list"
  | JObject "(string \<times> json) list"

text \<open>
  \<open>gin.Context\<close> with its response writer: the status, whether the header has been
  written, the response headers and the bodies written so far.
\<close>

record Context =
  Req :: Request
  Params :: "(string \<times> string) list"
  Keys :: "(string \<times> string) list"
  Header :: "(string \<times> string) list"
  Status :: int
  Written :: bool
  Body :: "json list"
  Errors :: "go_error list"
  Aborted :: bool
  Db :: db
  World :: Env

definition lookup :: "string \<Rightarrow> (string \<times> string) list \<Rightarrow> string" where
  "lookup k kvs = (case map_of kvs k of None \<Rightarrow> [] | Some v \<Rightarrow> v)"

text \<open>
  \<open>textproto.CanonicalMIMEHeaderKey\<close>: in a name made of token characters only, the first
  letter and every letter after a hyphen become upper case and the others lower case; any
  other name is left as it is. \<open>http.Header\<close> keeps and finds every header under this form of
  its name.
\<close>

definition validHeaderFieldByte :: "char \<Rightarrow> bool" where
  "validHeaderFieldByte ch =
     (let n = (of_char ch :: int)
      in (48 \<le> n \<and> n \<le> 57) \<or> (65 \<le> n \<and> n \<le> 90) \<or> (97 \<le> n \<and> n \<le> 122)
         \<or> n \<in> set [33, 35, 36, 37, 38, 39, 42, 43, 45, 46, 94, 95, 96, 124, 126])"

fun canonical :: "bool \<Rightarrow> string \<Rightarrow> string" where
  "canonical upper [] = []"
| "canonical upper (ch # s) =
     (let n = (of_char ch :: int);
          ch' = (if upper \<and> 97 \<le> n \<and> n \<le> 122 then char_of (n - 32)
                 else if \<not> upper \<and> 65 \<le> n \<and> n \<le> 90 then char_of (n + 32)
                 else ch)
      in ch' # canonical (ch' = CHR ''-'') s)"

definition CanonicalMIMEHeaderKey :: "string \<Rightarrow> string" where
  "CanonicalMIMEHeaderKey s = (if list_all validHeaderFieldByte s then canonical True s else s)"

text \<open>\<open>Request.Header.Get(key)\<close>: the value of the first line with this header name.\<close>

definition Header_Get :: "string \<Rightarrow> Request \<Rightarrow> string" where
  "Header_Get k req =
     lookup (CanonicalMIMEHeaderKey k)
       (map (\<lambda>kv. (CanonicalMIMEHeaderKey (fst kv), snd kv)) (ReqHeader req))"

definition GetHeader :: "string \<Rightarrow> Context \<Rightarrow> string" where
  "GetHeader k c = Header_Get k (Req c)"

definition Query :: "string \<Rightarrow> Context \<Rightarrow> string" where
  "Query k c = lookup k (URLQuery (Req c))"

definition Param :: "string \<Rightarrow> Context \<Rightarrow> string" where
  "Param k c = lookup k (Params c)"

definition Set_key :: "string \<Rightarrow> string \<Rightarrow> Context \<Rightarrow> Context" where
  "Set_key k v c = c\<lparr>Keys := (k, v) # filter (\<lambda>kv. fst kv \<noteq> k) (Keys c)\<rparr>"

text \<open>\<open>c.Header(key, value)\<close>: an empty value deletes the header, any other replaces it.\<close>

definition Header_set :: "string \<Rightarrow> string \<Rightarrow> Context \<Rightarrow> Context" where
  "Header_set key v c =
     (let k = CanonicalMIMEHeaderKey key
      in if v = [] then c\<lparr>Header := filter (\<lambda>kv. fst kv \<noteq> k) (Header c)\<rparr>
         else c\<lparr>Header := (k, v) # filter (\<lambda>kv. fst kv \<noteq> k) (Header c)\<rparr>)"

text \<open>\<open>c.Status(code)\<close>: the status of a response whose header is written stays.\<close>

definition Status_set :: "int \<Rightarrow> Context \<Rightarrow> Context" where
  "Status_set code c = (if Written c then c else c\<lparr>Status := code\<rparr>)"

definition bodyAllowedForStatus :: "int \<Rightarrow> bool" where
  "bodyAllowedForStatus code =
     (if 100 \<le> code \<and> code \<le> 199 then False
      else if code = 204 then False
      else if code = 304 then False
      else True)"

definition writeContentType :: "string \<Rightarrow> Context \<Rightarrow> Context" where
  "writeContentType v c =
     (if map_of (Header c) ''Content-Type'' = None
      then c\<lparr>Header := (''Content-Type'', v) # Header c\<rparr> else c)"

definition JSON :: "int \<Rightarrow> json \<Rightarrow> Context \<Rightarrow> Context" where
  "JSON code obj c0 =
     (let c = writeContentType ''application/json; charset=utf-8'' (Status_set code c0)
      in if bodyAllowedForStatus code
         then c\<lparr>Body := Body c @ [obj], Written := True\<rparr>
         else c\<lparr>Written := True\<rparr>)"

definition AbortWithStatus :: "int \<Rightarrow> Context \<Rightarrow> Context" where
  "AbortWithStatus code c = (Status_set code c)\<lparr>Written := True, Aborted := True\<rparr>"

definition H_error :: "string \<Rightarrow> json" where
  "H_error msg = JObject [(''error'', JString msg)]"

section \<open>strconv.Atoi and integer conversion\<close>

text \<open>
  \<open>strconv.Atoi\<close> for the 64-bit \<open>int\<close>: an optional sign, then one or more decimal
  digits; anything else is a syntax error, a value outside the 64-bit range a range error.
\<close>

definition is_digit :: "char \<Rightarrow> bool" where
  "is_digit ch = (48 \<le> (of_char ch :: nat) \<and> (of_char ch :: nat) \<le> 57)"

definition digits_value :: "string \<Rightarrow> int" where
  "digits_value ds = foldl (\<lambda>n ch. n * 10 + (int (of_char ch) - 48)) 0 ds"

definition Atoi :: "string \<Rightarrow> go_error + int" where
  "Atoi s =
     (let neg = (case s of [] \<Rightarrow> False | ch # _ \<Rightarrow> ch = CHR ''-'');
          ds = (case s of [] \<Rightarrow> [] | ch # r \<Rightarrow> if ch = CHR ''-'' \<or> ch = CHR ''+'' then r else s)
      in if ds = [] then Inl (FmtErr ''strconv.Atoi: invalid syntax'')
         else if list_ex (\<lambda>ch. \<not> is_digit ch) ds then Inl (FmtErr ''strconv.Atoi: invalid syntax'')
         else let v = (if neg then - digits_value ds else digits_value ds)
              in if v < - (2 ^ 63) \<or> 2 ^ 63 - 1 < v
                 then Inl (FmtErr ''strconv.Atoi: value out of range'')
                 else Inr v)"

text \<open>The conversion \<open>int32(n)\<close> keeps the low 32 bits, read in two's complement.\<close>

definition int32 :: "int \<Rightarrow> int" where
  "int32 n = (n + 2 ^ 31) mod 2 ^ 32 - 2 ^ 31"

section \<open>UserHandler\<close>

definition parseUserID :: "string \<Rightarrow> go_error + int" where
  "parseUserID idStr =
     (case Atoi idStr of
        Inl err \<Rightarrow> Inl (FmtErr ''invalid user ID'')
      | Inr i \<Rightarrow>
          if i \<le> 0 then Inl (FmtErr ''user ID must be positive'')
          else Inr (int32 i))"

definition parseIntQuery :: "string \<Rightarrow> int \<Rightarrow> int \<Rightarrow> int \<Rightarrow> go_error + int" where
  "parseIntQuery v defaultValue lo hi =
     (if v = [] then Inr defaultValue
      else case Atoi v of
             Inl err \<Rightarrow> Inl (FmtErr ''invalid integer value'')
           | Inr result \<Rightarrow>
               let result1 = (if result < lo then lo else result);
                   result2 = (if result1 > hi then hi else result1)
               in Inr result2)"

definition error_message :: "go_error \<Rightarrow> string" where
  "error_message e =
     (case e of
        ErrNoRows \<Rightarrow> ''sql: no rows in result set''
      | PgxErrNoRows \<Rightarrow> ''no rows in result set''
      | PgErr p \<Rightarrow> Severity p @ '': '' @ Message p @ '' (SQLSTATE '' @ Code p @ '')''
      | DriverErr m \<Rightarrow> m
      | FmtErr m \<Rightarrow> m)"

definition toUserResponse :: "User \<Rightarrow> UserResponse" where
  "toUserResponse user =
     \<lparr>ur_ID = ID user, ur_Username = Username user, ur_Email = Email user,
      ur_CreatedAt = CreatedAt user, ur_UpdatedAt = UpdatedAt user\<rparr>"

text \<open>
  The answer of \<open>CreateUser\<close> and \<open>UpdateUser\<close> to an error \<open>err\<close> of the repository; \<open>what\<close>
  is the message of the last branch.
\<close>

definition write_conflict :: "go_error \<Rightarrow> string \<Rightarrow> Context \<Rightarrow> Context" where
  "write_conflict err what c =
     (case err of
        PgErr pgErr \<Rightarrow>
          if Code pgErr = ''23505'' then
            if ConstraintName pgErr = ''users_email_unique''
               \<or> ConstraintName pgErr = ''users_email_key''
            then JSON 409 (H_error ''User with this email already exists'') c
            else if ConstraintName pgErr = ''users_username_unique''
                    \<or> ConstraintName pgErr = ''users_username_key''
            then JSON 409 (H_error ''User with this username already exists'') c
            else JSON 500 (H_error what) c
          else JSON 500 (H_error what) c
      | _ \<Rightarrow> JSON 500 (H_error what) c)"

definition h_CreateUser :: "Context \<Rightarrow> Context" where
  "h_CreateUser c =
     (case JSONBody (Req c) of
        Inl err \<Rightarrow>
          JSON 400 (JObject [(''error'', JString ''Invalid request data''),
                             (''details'', JString err)]) c
      | Inr req \<Rightarrow>
          (case repo_UserExists (f_Email req) (Db c) of
             (Inl err, d1) \<Rightarrow>
               JSON 500 (H_error ''Failed to check if user exists'') (c\<lparr>Db := d1\<rparr>)
           | (Inr ex, d1) \<Rightarrow>
               if ex
               then JSON 409 (H_error ''User with this email already exists'') (c\<lparr>Db := d1\<rparr>)
               else
                 (case HashResult (World c) of
                    Inl err \<Rightarrow> JSON 500 (H_error ''Failed to hash password'') (c\<lparr>Db := d1\<rparr>)
                  | Inr hashedPassword \<Rightarrow>
                      let user = \<lparr>ID = 0, Username = f_Username req, Email = f_Email req,
                                  Password = hashedPassword, CreatedAt = 0, UpdatedAt = 0\<rparr>
                      in case repo_CreateUser (Now (World c)) user d1 of
                           ((Some err, user'), d2) \<Rightarrow>
                             write_conflict err ''Failed to create user'' (c\<lparr>Db := d2\<rparr>)
                         | ((None, user'), d2) \<Rightarrow>
                             JSON 201 (JObject [(''message'', JString ''User created successfully''),
                                                (''user'', JUser (toUserResponse user'))])
                               (c\<lparr>Db := d2\<rparr>))))"

definition h_GetAllUsers :: "Context \<Rightarrow> Context" where
  "h_GetAllUsers c =
     (case repo_GetAllUsers (Db c) of
        (Inl err, d1) \<Rightarrow> JSON 500 (H_error ''Failed to retrieve users'') (c\<lparr>Db := d1\<rparr>)
      | (Inr us, d1) \<Rightarrow>
          let userResponses = map toUserResponse us
          in JSON 200 (JObject [(''users'', JUsers userResponses),
                                (''count'', JInt (int (length userResponses)))])
               (c\<lparr>Db := d1\<rparr>))"

definition h_GetUserByID :: "Context \<Rightarrow> Context" where
  "h_GetUserByID c =
     (case parseUserID (Param ''id'' c) of
        Inl err \<Rightarrow> JSON 400 (H_error (error_message err)) c
      | Inr userID \<Rightarrow>
          (case repo_GetUserByID userID (Db c) of
             (Inl err, d1) \<Rightarrow>
               if err = ErrNoRows then JSON 404 (H_error ''User not found'') (c\<lparr>Db := d1\<rparr>)
               else JSON 500 (H_error ''Failed to retrieve user'') (c\<lparr>Db := d1\<rparr>)
           | (Inr user, d1) \<Rightarrow>
               JSON 200 (JObject [(''user'', JUser (toUserResponse user))]) (c\<lparr>Db := d1\<rparr>)))"

definition h_UpdateUser :: "Context \<Rightarrow> Context" where
  "h_UpdateUser c =
     (case parseUserID (Param ''id'' c) of
        Inl err \<Rightarrow> JSON 400 (H_error (error_message err)) c
      | Inr userID \<Rightarrow>
          (case repo_GetUserByID userID (Db c) of
             (Inl err, d1) \<Rightarrow>
               if err = ErrNoRows then JSON 404 (H_error ''User not found'') (c\<lparr>Db := d1\<rparr>)
               else JSON 500 (H_error ''Failed to retrieve user'') (c\<lparr>Db := d1\<rparr>)
           | (Inr found, d1) \<Rightarrow>
               (case JSONBody (Req c) of
                  Inl err \<Rightarrow>
                    JSON 400 (JObject [(''error'', JString ''Invalid request data''),
                                       (''details'', JString err)]) (c\<lparr>Db := d1\<rparr>)
                | Inr req \<Rightarrow>
                    let user = \<lparr>ID = userID, Username = f_Username req, Email = f_Email req,
                                Password = [], CreatedAt = 0, UpdatedAt = 0\<rparr>
                    in case repo_UpdateUser (Now (World c)) user d1 of
                         ((Some err, user'), d2) \<Rightarrow>
                           write_conflict err ''Failed to update user'' (c\<lparr>Db := d2\<rparr>)
                       | ((None, user'), d2) \<Rightarrow>
                           JSON 200 (JObject [(''message'', JString ''User updated successfully''),
                                              (''user'', JUser (toUserResponse user'))])
                             (c\<lparr>Db := d2\<rparr>))))"

definition h_DeleteUser :: "Context \<Rightarrow> Context" where
  "h_DeleteUser c =
     (case parseUserID (Param ''id'' c) of
        Inl err \<Rightarrow> JSON 400 (H_error (error_message err)) c
      | Inr userID \<Rightarrow>
          (case repo_DeleteUser userID (Db c) of
             (Some err, d1) \<Rightarrow>
               (case repo_GetUserByID userID d1 of
                  (checked, d2) \<Rightarrow>
                    if checked = Inl ErrNoRows
                    then JSON 404 (H_error ''User not found'') (c\<lparr>Db := d2\<rparr>)
                    else JSON 500 (H_error ''Failed to delete user'') (c\<lparr>Db := d2\<rparr>))
           | (None, d1) \<Rightarrow>
               JSON 200 (JObject [(''message'', JString ''User deleted successfully'')])
                 (c\<lparr>Db := d1\<rparr>)))"

definition h_GetUsersWithPagination :: "Context \<Rightarrow> Context" where
  "h_GetUsersWithPagination c =
     (case parseIntQuery (Query ''limit'' c) 10 1 100 of
        Inl err \<Rightarrow> JSON 400 (H_error ''Invalid limit parameter'') c
      | Inr limit \<Rightarrow>
          (case parseIntQuery (Query ''offset'' c) 0 0 1000000 of
             Inl err \<Rightarrow> JSON 400 (H_error ''Invalid offset parameter'') c
           | Inr offset \<Rightarrow>
               (case repo_GetUsersWithPagination (int32 limit) (int32 offset) (Db c) of
                  (Inl err, d1) \<Rightarrow>
                    JSON 500 (H_error ''Failed to retrieve users'') (c\<lparr>Db := d1\<rparr>)
                | (Inr us, d1) \<Rightarrow>
                    (case repo_CountUsers d1 of
                       (Inl err, d2) \<Rightarrow>
                         JSON 500 (H_error ''Failed to count users'') (c\<lparr>Db := d2\<rparr>)
                     | (Inr total', d2) \<Rightarrow>
                         JSON 200
                           (JObject [(''users'', JUsers (map toUserResponse us)),
                                     (''pagination'',
                                      JObject [(''limit'', JInt limit), (''offset'', JInt offset),
                                               (''total'', JInt total')])])
                           (c\<lparr>Db := d2\<rparr>)))))"

section \<open>HealthHandler\<close>

definition pool_Ping :: "db \<Rightarrow> go_error option \<times> db" where
  "pool_Ping d = begin_query ''Ping'' d"

definition h_Ping :: "Context \<Rightarrow> Context" where
  "h_Ping c = JSON 200 (JObject [(''message'', JString ''pong'')]) c"

definition h_HealthCheck :: "Context \<Rightarrow> Context" where
  "h_HealthCheck c =
     (case pool_Ping (Db c) of
        (Some err, d1) \<Rightarrow>
          JSON 503 (JObject [(''status'', JString ''unhealthy''),
                             (''database'', JObject [(''status'', JString ''disconnected''),
                                                     (''error'', JString (error_message err))])])
            (c\<lparr>Db := d1\<rparr>)
      | (None, d1) \<Rightarrow>
          JSON 200 (JObject [(''status'', JString ''healthy''),
                             (''database'', JObject [(''status'', JString ''connected'')])])
            (c\<lparr>Db := d1\<rparr>))"

definition h_Readiness :: "Context \<Rightarrow> Context" where
  "h_Readiness c =
     (case pool_Ping (Db c) of
        (Some err, d1) \<Rightarrow>
          JSON 503 (JObject [(''ready'', JBool False), (''error'', JString ''database not ready'')])
            (c\<lparr>Db := d1\<rparr>)
      | (None, d1) \<Rightarrow> JSON 200 (JObject [(''ready'', JBool True)]) (c\<lparr>Db := d1\<rparr>))"

definition h_Liveness :: "Context \<Rightarrow> Context" where
  "h_Liveness c = JSON 200 (JObject [(''alive'', JBool True)]) c"

section \<open>Middleware\<close>

text \<open>
  A middleware takes what \<open>c.Next()\<close> runs, the rest of the chain, as its first argument.
\<close>

definition CORS :: "(Context \<Rightarrow> Context) \<Rightarrow> Context \<Rightarrow> Context" where
  "CORS nxt c0 =
     (let c1 = Header_set ''Access-Control-Allow-Origin'' ''*'' c0;
          c2 = Header_set ''Access-Control-Allow-Methods'' ''GET, POST, PUT, DELETE, OPTIONS'' c1;
          c3 = Header_set ''Access-Control-Allow-Headers''
                 ''Origin, Content-Type, Content-Length, Accept-Encoding, X-CSRF-Token, Authorization''
                 c2
      in if Method (Req c3) = ''OPTIONS'' then AbortWithStatus 204 c3 else nxt c3)"

definition ErrorHandler :: "(Context \<Rightarrow> Context) \<Rightarrow> Context \<Rightarrow> Context" where
  "ErrorHandler nxt c0 =
     (let c = nxt c0
      in if length (Errors c) > 0 then JSON 500 (H_error ''Internal server error'') c else c)"

text \<open>\<open>rand.Read(b)\<close> for a buffer of \<open>n\<close> bytes: a failure, or the \<open>n\<close> bytes read.\<close>

definition rand_Read :: "nat \<Rightarrow> Env \<Rightarrow> nat list option" where
  "rand_Read n env =
     (if RandFails env then None
      else Some (map (\<lambda>i. nat ((RandSeed env div 256 ^ i) mod 256)) [0..<n]))"

definition hextable :: string where
  "hextable = ''0123456789abcdef''"

definition EncodeToString :: "nat list \<Rightarrow> string" where
  "EncodeToString b = concat (map (\<lambda>v. [hextable ! (v div 16), hextable ! (v mod 16)]) b)"

definition charset :: string where
  "charset = ''abcdefghijklmnopqrstuvwxyzABCDEFGHIJKLMNOPQRSTUVWXYZ0123456789''"

definition randomString :: "nat \<Rightarrow> Env \<Rightarrow> string" where
  "randomString n env =
     (case rand_Read n env of
        None \<Rightarrow> map (\<lambda>i. charset ! (i mod length charset)) [0..<n]
      | Some b \<Rightarrow> take n (EncodeToString b))"

definition generateRequestID :: "Env \<Rightarrow> string" where
  "generateRequestID env = ''req-'' @ randomString 8 env"

definition RequestID :: "(Context \<Rightarrow> Context) \<Rightarrow> Context \<Rightarrow> Context" where
  "RequestID nxt c =
     (let requestID0 = GetHeader ''X-Request-ID'' c;
          requestID = (if requestID0 = [] then generateRequestID (World c) else requestID0)
      in nxt (Header_set ''X-Request-ID'' requestID (Set_key ''RequestID'' requestID c)))"

text \<open>
  \<open>gin.Logger\<close> writes a log line and \<open>gin.Recovery\<close> catches a panic of the rest of the
  chain; no function modelled here panics, so both only run the rest of the chain.
\<close>

definition Logger :: "(Context \<Rightarrow> Context) \<Rightarrow> Context \<Rightarrow> Context" where
  "Logger nxt c = nxt c"

definition Recovery :: "(Context \<Rightarrow> Context) \<Rightarrow> Context \<Rightarrow> Context" where
  "Recovery nxt c = nxt c"

section \<open>Server\<close>

text \<open>
  The chain of a request: the middleware in the order of \<open>setupRouter\<close>, then the handler
  of the route. \<open>c.Next()\<close> runs nothing once the context is aborted.
\<close>

fun run_chain ::
  "((Context \<Rightarrow> Context) \<Rightarrow> Context \<Rightarrow> Context) list \<Rightarrow> (Context \<Rightarrow> Context) \<Rightarrow> Context \<Rightarrow> Context"
where
  "run_chain [] h c = (if Aborted c then c else h c)"
| "run_chain (m # ms) h c = (if Aborted c then c else m (run_chain ms h) c)"

definition middlewares :: "((Context \<Rightarrow> Context) \<Rightarrow> Context \<Rightarrow> Context) list" where
  "middlewares = [RequestID, Logger, Recovery, ErrorHandler, CORS]"

definition new_context :: "Request \<Rightarrow> (string \<times> string) list \<Rightarrow> Env \<Rightarrow> db \<Rightarrow> int \<Rightarrow> Context" where
  "new_context req ps env d st =
     \<lparr>Req = req, Params = ps, Keys = [], Header = [], Status = st, Written = False, Body = [],
      Errors = [], Aborted = False, Db = d, World = env\<rparr>"

text \<open>
  The table of \<open>setupRoutes\<close>, one tree per method: in the tree of \<open>GET\<close> the static segment
  \<open>paginate\<close> goes before the parameter \<open>:id\<close>, which matches any segment that is not empty.
\<close>

definition match_route ::
  "string \<Rightarrow> string list \<Rightarrow> ((Context \<Rightarrow> Context) \<times> (string \<times> string) list) option"
where
  "match_route m p =
     (if m = ''GET'' \<and> p = [''ping''] then Some (h_Ping, [])
      else if m = ''GET'' \<and> p = [''health''] then Some (h_HealthCheck, [])
      else if m = ''GET'' \<and> p = [''ready''] then Some (h_Readiness, [])
      else if m = ''GET'' \<and> p = [''live''] then Some (h_Liveness, [])
      else if m = ''POST'' \<and> p = [''api'', ''v1'', ''users''] then Some (h_CreateUser, [])
      else if m = ''GET'' \<and> p = [''api'', ''v1'', ''users''] then Some (h_GetAllUsers, [])
      else if m = ''GET'' \<and> p = [''api'', ''v1'', ''users'', ''paginate'']
      then Some (h_GetUsersWithPagination, [])
      else if length p = 4 \<and> take 3 p = [''api'', ''v1'', ''users''] \<and> p ! 3 \<noteq> []
      then (if m = ''GET'' then Some (h_GetUserByID, [(''id'', p ! 3)])
            else if m = ''PUT'' then Some (h_UpdateUser, [(''id'', p ! 3)])
            else if m = ''DELETE'' then Some (h_DeleteUser, [(''id'', p ! 3)])
            else None)
      else None)"

text \<open>
  What the router recommends for a path that has no handler in the tree of the method: a
  redirect when a route exists for the path without its trailing slash. In the trees of
  \<open>setupRoutes\<close> that is a static route followed by a slash, and any single segment after
  \<open>/api/v1/users/\<close>, the empty one too, followed by a slash; \<open>/api/v1/users/\<close> itself only in
  the trees where \<open>/api/v1/users\<close> is a route. No registered route ends with a slash, so no
  redirect adds one.
\<close>

definition tsr :: "string \<Rightarrow> string list \<Rightarrow> bool" where
  "tsr m p =
     (if m = ''GET''
      then p = [''ping'', []] \<or> p = [''health'', []] \<or> p = [''ready'', []] \<or> p = [''live'', []]
           \<or> p = [''api'', ''v1'', ''users'', []]
           \<or> (length p = 5 \<and> take 3 p = [''api'', ''v1'', ''users''] \<and> p ! 4 = [])
      else if m = ''POST'' then p = [''api'', ''v1'', ''users'', []]
      else if m = ''PUT'' \<or> m = ''DELETE''
      then length p = 5 \<and> take 3 p = [''api'', ''v1'', ''users''] \<and> p ! 4 = []
      else False)"

text \<open>
  \<open>gin.New\<close> leaves \<open>RedirectTrailingSlash\<close> on. The router answers such a request itself, before
  any middleware runs: \<open>http.Redirect\<close> with 301 for \<open>GET\<close> and 307 for any other method, which
  sets \<open>Location\<close> and, for \<open>GET\<close>, writes a short HTML body.
\<close>

definition htmlEscape :: "string \<Rightarrow> string" where
  "htmlEscape s =
     concat (map (\<lambda>ch. if ch = CHR ''&'' then ''&amp;''
                        else if ch = CHR ''<'' then ''&lt;''
                        else if ch = CHR ''>'' then ''&gt;''
                        else if ch = CHR 0x22 then ''&#34;''
                        else if ch = CHR 0x27 then ''&#39;''
                        else [ch]) s)"

definition redirectTrailingSlash :: "Context \<Rightarrow> Context" where
  "redirectTrailingSlash c =
     (let url = RedirectURL (Req c)
      in if Method (Req c) = ''GET''
         then c\<lparr>Header := [(''Content-Type'', ''text/html; charset=utf-8''), (''Location'', url)],
                Status := 301,
                Body := [JString (''<a href='' @ [CHR 0x22] @ htmlEscape url @ [CHR 0x22]
                                  @ ''>Moved Permanently</a>.'' @ [CHR 0x0A, CHR 0x0A])],
                Written := True\<rparr>
         else c\<lparr>Header := [(''Location'', url)], Status := 307, Written := True\<rparr>)"

definition redirected :: "Request \<Rightarrow> bool" where
  "redirected req =
     (match_route (Method req) (URLPath req) = None
      \<and> Method req \<noteq> ''CONNECT'' \<and> URLPath req \<noteq> [[]]
      \<and> tsr (Method req) (URLPath req))"

text \<open>
  A request with no route and no redirect runs the middleware on a context whose status is
  404; if nothing was written, the default body follows.
\<close>

definition serveError :: "Context \<Rightarrow> Context" where
  "serveError c =
     (if Written c then c
      else if Status c = 404
      then c\<lparr>Header := (''Content-Type'', ''text/plain'')
                          # filter (\<lambda>kv. fst kv \<noteq> ''Content-Type'') (Header c),
             Body := Body c @ [JString ''404 page not found''], Written := True\<rparr>
      else c\<lparr>Written := True\<rparr>)"

definition handleHTTPRequest :: "Request \<Rightarrow> Env \<Rightarrow> db \<Rightarrow> Context" where
  "handleHTTPRequest req env d =
     (case match_route (Method req) (URLPath req) of
        Some (h, ps) \<Rightarrow> run_chain middlewares h (new_context req ps env d 200)
      | None \<Rightarrow>
          if redirected req then redirectTrailingSlash (new_context req [] env d 200)
          else serveError (run_chain middlewares (\<lambda>c. c) (new_context req [] env d 404)))"

section \<open>Well-formed stores and a sample store\<close>

text \<open>
  What the schema and the sequence guarantee of every table the repository has written:
  the sequence is ahead of every identifier, identifiers are positive, the three unique
  columns hold no duplicates, and both timestamps are set.
\<close>

definition wf_db :: "db \<Rightarrow> bool" where
  "wf_db d =
     (0 < next_id d
      \<and> distinct (map row_id (users d))
      \<and> distinct (map row_username (users d))
      \<and> distinct (map row_email (users d))
      \<and> list_all (\<lambda>r. 0 < row_id r \<and> row_id r < next_id d
                       \<and> Valid (row_created_at r) \<and> Valid (row_updated_at r)) (users d))"

definition sample_row :: "int \<Rightarrow> user_row" where
  "sample_row i =
     \<lparr>row_id = i, row_username = ''user'' @ replicate (nat i) CHR ''x'',
      row_email = replicate (nat i) CHR ''x'' @ ''@example.com'', row_password = ''hash'',
      row_created_at = timestamptz (1000 + i), row_updated_at = timestamptz (2000 + i)\<rparr>"

definition sample_db :: db where
  "sample_db = \<lparr>users = map sample_row [1, 2, 3, 4, 5, 6, 7, 8, 9, 10], next_id = 11,
                 faults = [], scans = [], calls = []\<rparr>"

text \<open>
  A store of 10 users created two at a time, so that users 5 and 6 have the same creation
  time; the storage reads the table in its order for the first query and user 6 first for
  the second.
\<close>

definition tied_row :: "int \<Rightarrow> user_row" where
  "tied_row i = (sample_row i)\<lparr>row_created_at := timestamptz (1000 + (i + 1) div 2)\<rparr>"

definition tied_db :: db where
  "tied_db = \<lparr>users = map tied_row [1, 2, 3, 4, 5, 6, 7, 8, 9, 10], next_id = 11,
               faults = [], scans = [[], [6]], calls = []\<rparr>"

definition john :: User where
  "john = \<lparr>ID = 0, Username = ''johndoe'', Email = ''john@example.com'',
           Password = ''$2a$10$hash'', CreatedAt = 0, UpdatedAt = 0\<rparr>"

definition rename3 :: User where
  "rename3 = \<lparr>ID = 3, Username = ''renamed'', Email = ''xxx@example.com'',
              Password = [], CreatedAt = 0, UpdatedAt = 0\<rparr>"

section \<open>Sample requests\<close>

definition sample_env :: Env where
  "sample_env = \<lparr>Now = 9000, RandFails = False, RandSeed = 81985529216486895,
                  HashResult = Inr ''$2a$10$hash''\<rparr>"

definition request :: "string \<Rightarrow> string list \<Rightarrow> Request" where
  "request m p = \<lparr>Method = m, URLPath = p, ReqHeader = [], URLQuery = [],
                  JSONBody = Inl ''EOF'',
                  RedirectURL = concat (map (\<lambda>s. CHR ''/'' # s) (butlast p))\<rparr>"

definition post_users :: "user_fields \<Rightarrow> Request" where
  "post_users f = (request ''POST'' [''api'', ''v1'', ''users''])\<lparr>JSONBody := Inr f\<rparr>"

definition put_user :: "string \<Rightarrow> user_fields \<Rightarrow> Request" where
  "put_user i f = (request ''PUT'' [''api'', ''v1'', ''users'', i])\<lparr>JSONBody := Inr f\<rparr>"

definition paginate_request :: "(string \<times> string) list \<Rightarrow> Request" where
  "paginate_request q = (request ''GET'' [''api'', ''v1'', ''users'', ''paginate''])\<lparr>URLQuery := q\<rparr>"

definition paginate_ctx :: Context where
  "paginate_ctx =
     new_context (paginate_request [(''limit'', ''0''), (''offset'', ''-5'')]) [] sample_env sample_db 200"

section \<open>Error types\<close>

text \<open>
  The error values whose Go type comes from the storage packages: the sentinels of
  \<open>database/sql\<close> and of pgx, the driver's \<open>*pgconn.PgError\<close> and the driver's other errors. The
  sources declare no error type of their own.
\<close>

definition driver_error_type :: "go_error \<Rightarrow> bool" where
  "driver_error_type e =
     (case e of
        ErrNoRows \<Rightarrow> True
      | PgxErrNoRows \<Rightarrow> True
      | PgErr p \<Rightarrow> True
      | DriverErr m \<Rightarrow> True
      | FmtErr m \<Rightarrow> False)"

section \<open>Facts about the storage model\<close>

lemma begin_query_nofault:
  "faults d = [] \<Longrightarrow> begin_query n d = (None, d\<lparr>calls := calls d @ [n]\<rparr>)"
  by (simp add: begin_query_def)

lemma wf_sample_db: "wf_db sample_db"
  by code_simp

text \<open>
  The empty table is well-formed, and every method of the repository keeps a table
  well-formed, whatever it returns.
\<close>

lemma wf_db_fresh: "wf_db \<lparr>users = [], next_id = 1, faults = fs, scans = ss, calls = cs\<rparr>"
  by (simp add: wf_db_def)

lemma wf_db_begin_query:
  "begin_query n d = (f, d') \<Longrightarrow> wf_db d' = wf_db d"
  by (auto simp: begin_query_def wf_db_def split: list.splits)

lemma wf_db_calls_faults [simp]:
  "wf_db (d\<lparr>calls := cs\<rparr>) = wf_db d" "wf_db (d\<lparr>faults := fs\<rparr>) = wf_db d"
  "wf_db (d\<lparr>scans := ss\<rparr>) = wf_db d"
  by (simp_all add: wf_db_def)

lemma wf_db_insert:
  assumes "wf_db d"
    and "\<not> list_ex (\<lambda>r. row_id r = next_id d) (users d)"
    and "\<not> list_ex (\<lambda>r. row_username r = un) (users d)"
    and "\<not> list_ex (\<lambda>r. row_email r = em) (users d)"
  shows "wf_db (d\<lparr>next_id := next_id d + 1,
                   users := users d @ [\<lparr>row_id = next_id d, row_username = un, row_email = em,
                                        row_password = pw, row_created_at = timestamptz t1,
                                        row_updated_at = timestamptz t2\<rparr>]\<rparr>)"
  using assms
  by (auto simp: wf_db_def list_ex_iff list_all_iff timestamptz_def)

lemma wf_db_next_id: "wf_db d \<Longrightarrow> wf_db (d\<lparr>next_id := next_id d + 1\<rparr>)"
  by (auto simp: wf_db_def list_all_iff)

lemma wf_db_CreateUser:
  assumes "wf_db d"
  shows "wf_db (snd (repo_CreateUser now u d))"
proof -
  obtain f d1 where b: "begin_query ''CreateUser'' d = (f, d1)"
    by (cases "begin_query ''CreateUser'' d")
  have w1: "wf_db d1"
    using wf_db_begin_query [OF b] assms by simp
  show ?thesis
    using b w1 wf_db_insert [of d1 "Username u" "Email u" "Password u" now now]
      wf_db_next_id [OF w1]
    by (simp add: repo_CreateUser_def q_CreateUser_def Let_def split: option.splits)
qed

lemma distinct_map_set_column:
  assumes "distinct (map k rs)" and "distinct (map f rs)"
    and "\<forall>r \<in> set rs. k r \<noteq> i \<longrightarrow> f r \<noteq> v"
    and g: "\<And>r. f (g r) = v"
  shows "distinct (map f (map (\<lambda>r. if k r = i then g r else r) rs))"
  using assms(1-3)
proof (induction rs)
  case Nil
  then show ?case by simp
next
  case (Cons r rs)
  let ?u = "\<lambda>r. if k r = i then g r else r"
  have ih: "distinct (map f (map ?u rs))"
    using Cons by simp
  have fu: "f (?u x) = (if k x = i then v else f x)" for x
    by (simp add: g)
  show ?case
  proof (cases "k r = i")
    case True
    have other: "k x \<noteq> i" if "x \<in> set rs" for x
      using True Cons.prems(1) that by (auto simp: image_iff)
    have "f (?u x) \<noteq> v" if "x \<in> set rs" for x
      using other [OF that] Cons.prems(3) that by simp
    then have "v \<notin> set (map f (map ?u rs))"
      by (auto simp del: fu)
    then show ?thesis
      using True ih by (simp add: g)
  next
    case False
    have nv: "f r \<noteq> v"
      using False Cons.prems(3) by simp
    have nx: "f r \<noteq> f x" if "x \<in> set rs" for x
      using Cons.prems(2) that by (auto simp: image_iff)
    have ne: "f (?u x) \<noteq> f r" if "x \<in> set rs" for x
      using nv nx [OF that] by (simp add: g)
    have "f r \<notin> set (map f (map ?u rs))"
    proof
      assume "f r \<in> set (map f (map ?u rs))"
      then obtain x where "x \<in> set rs" and "f r = f (?u x)"
        by auto
      with ne [of x] show False by simp
    qed
    then show ?thesis
      using False ih by simp
  qed
qed

lemma wf_db_UpdateUser:
  assumes "wf_db d"
  shows "wf_db (snd (repo_UpdateUser now u d))"
proof -
  let ?p = "\<lparr>up_ID = ID u, up_Username = Username u, up_Email = Email u,
             up_UpdatedAt = timestamptz now\<rparr>"
  obtain f d1 where b: "begin_query ''UpdateUser'' d = (f, d1)"
    by (cases "begin_query ''UpdateUser'' d")
  have w1: "wf_db d1"
    using wf_db_begin_query [OF b] assms by simp
  have upd: "wf_db (d1\<lparr>users := map (set_user_columns ?p) (users d1)\<rparr>)"
    if nu: "\<not> list_ex (\<lambda>r. row_id r \<noteq> ID u \<and> row_username r = Username u) (users d1)"
    and ne: "\<not> list_ex (\<lambda>r. row_id r \<noteq> ID u \<and> row_email r = Email u) (users d1)"
  proof -
    have s: "set_user_columns ?p = (\<lambda>r. if row_id r = ID u
               then r\<lparr>row_username := Username u, row_email := Email u,
                      row_updated_at := timestamptz now\<rparr> else r)"
      by (rule ext) (simp add: set_user_columns_def)
    have "map row_id (map (set_user_columns ?p) rs) = map row_id rs" for rs
      by (induction rs) (simp_all add: set_user_columns_def)
    then have ids: "distinct (map row_id (map (set_user_columns ?p) (users d1)))"
      using w1 by (simp add: wf_db_def del: map_map)
    have un: "distinct (map row_username (map (set_user_columns ?p) (users d1)))"
      unfolding s
      by (rule distinct_map_set_column [where k = row_id and v = "Username u"])
         (use w1 nu in \<open>auto simp: wf_db_def list_ex_iff\<close>)
    have em: "distinct (map row_email (map (set_user_columns ?p) (users d1)))"
      unfolding s
      by (rule distinct_map_set_column [where k = row_id and v = "Email u"])
         (use w1 ne in \<open>auto simp: wf_db_def list_ex_iff\<close>)
    have rest: "list_all (\<lambda>r. 0 < row_id r \<and> row_id r < next_id d1
                       \<and> Valid (row_created_at r) \<and> Valid (row_updated_at r))
                  (map (set_user_columns ?p) (users d1))"
      using w1 by (auto simp: wf_db_def list_all_iff set_user_columns_def timestamptz_def)
    show ?thesis
      using w1 ids un em rest by (simp add: wf_db_def)
  qed
  show ?thesis
    using b w1 upd
    by (simp add: repo_UpdateUser_def q_UpdateUser_def Let_def split: option.splits)
qed

lemma wf_db_DeleteUser:
  assumes "wf_db d"
  shows "wf_db (snd (repo_DeleteUser i d))"
proof -
  obtain f d1 where b: "begin_query ''DeleteUser'' d = (f, d1)"
    by (cases "begin_query ''DeleteUser'' d")
  have w1: "wf_db d1"
    using wf_db_begin_query [OF b] assms by simp
  have "wf_db (d1\<lparr>users := filter (\<lambda>r. row_id r \<noteq> i) (users d1)\<rparr>)"
    using w1 by (auto simp: wf_db_def distinct_map_filter list_all_iff)
  then show ?thesis
    using b w1 by (simp add: repo_DeleteUser_def q_DeleteUser_def split: option.splits)
qed

lemma wf_db_UpdatePassword:
  assumes "wf_db d"
  shows "wf_db (snd (repo_UpdatePassword now i pw d))"
proof -
  let ?p = "\<lparr>pp_ID = i, pp_Password = pw, pp_UpdatedAt = timestamptz now\<rparr>"
  define g :: "user_row \<Rightarrow> user_row" where "g = (\<lambda>r. if row_id r = pp_ID ?p
                 then r\<lparr>row_password := pp_Password ?p, row_updated_at := pp_UpdatedAt ?p\<rparr>
                 else r)"
  obtain f d1 where b: "begin_query ''UpdatePassword'' d = (f, d1)"
    by (cases "begin_query ''UpdatePassword'' d")
  have w1: "wf_db d1"
    using wf_db_begin_query [OF b] assms by simp
  have gid: "row_id (g r) = row_id r" "row_username (g r) = row_username r"
    "row_email (g r) = row_email r" "Valid (row_created_at (g r)) = Valid (row_created_at r)"
    "Valid (row_updated_at r) \<Longrightarrow> Valid (row_updated_at (g r))" for r
    by (simp_all add: g_def timestamptz_def)
  have m: "map row_id (map g rs) = map row_id rs"
    "map row_username (map g rs) = map row_username rs"
    "map row_email (map g rs) = map row_email rs" for rs
    by (simp_all add: gid)
  have v: "list_all (\<lambda>r. 0 < row_id r \<and> row_id r < next_id d1
                       \<and> Valid (row_created_at r) \<and> Valid (row_updated_at r))
             (map g (users d1))"
    using w1 by (auto simp: wf_db_def list_all_iff gid)
  have "wf_db (d1\<lparr>users := map g (users d1)\<rparr>)"
    unfolding wf_db_def using w1 v by (simp add: m wf_db_def del: map_map)
  then show ?thesis
    using b w1 unfolding g_def
    by (simp add: repo_UpdatePassword_def q_UpdatePassword_def Let_def split: option.splits)
qed

section \<open>Pagination\<close>

lemma next_scan_keeps:
  "next_scan d = (s, d') \<Longrightarrow>
   users d' = users d \<and> next_id d' = next_id d \<and> faults d' = faults d \<and> calls d' = calls d"
  by (auto simp: next_scan_def split: list.splits)

lemma next_scan_calls: "fst (next_scan (d\<lparr>calls := cs\<rparr>)) = fst (next_scan d)"
  by (simp add: next_scan_def split: list.splits)

lemma paged_nofault:
  assumes "faults d = []" and "0 \<le> lim" and "0 \<le> off"
  shows "\<exists>d1. repo_GetUsersWithPagination lim off d =
           (Inr (map (\<lambda>r. list_row_to_user (select_list_row r))
                   (take (nat lim) (drop (nat off)
                      (order_by_created_at_desc (fst (next_scan d)) (users d))))), d1)
         \<and> users d1 = users d \<and> faults d1 = [] \<and> next_id d1 = next_id d"
proof -
  let ?d0 = "d\<lparr>calls := calls d @ [''GetUsersWithPagination'']\<rparr>"
  obtain s d1 where n: "next_scan ?d0 = (s, d1)"
    by (cases "next_scan ?d0")
  have s: "s = fst (next_scan d)"
    using n next_scan_calls [where d = d and cs = "calls d @ [''GetUsersWithPagination'']"] by simp
  show ?thesis
    using assms n s next_scan_keeps [OF n]
    by (simp add: repo_GetUsersWithPagination_def q_GetUsersWithPagination_def
          begin_query_nofault o_def)
qed

lemma all_nofault:
  assumes "faults d = []"
  shows "\<exists>d1. repo_GetAllUsers d =
           (Inr (map (\<lambda>r. list_row_to_user (select_list_row r))
                   (order_by_created_at_desc (fst (next_scan d)) (users d))), d1)
         \<and> users d1 = users d \<and> faults d1 = [] \<and> next_id d1 = next_id d"
proof -
  let ?d0 = "d\<lparr>calls := calls d @ [''GetAllUsers'']\<rparr>"
  obtain s d1 where n: "next_scan ?d0 = (s, d1)"
    by (cases "next_scan ?d0")
  have s: "s = fst (next_scan d)"
    using n next_scan_calls [where d = d and cs = "calls d @ [''GetAllUsers'']"] by simp
  show ?thesis
    using assms n s next_scan_keeps [OF n]
    by (simp add: repo_GetAllUsers_def q_GetAllUsers_def begin_query_nofault o_def)
qed

lemma created_at_to_user:
  "Valid (row_created_at r) \<Longrightarrow> CreatedAt (list_row_to_user (select_list_row r)) = Time (row_created_at r)"
  by (simp add: list_row_to_user_def select_list_row_def)

lemma id_to_user: "ID (list_row_to_user (select_list_row r)) = row_id r"
  by (simp add: list_row_to_user_def select_list_row_def)

text \<open>Whatever the scan, the rows come out as a rearrangement of the table, sorted by the key.\<close>

lemma mset_ordered: "mset (order_by_created_at_desc scan rs) = mset rs"
  by (simp add: order_by_created_at_desc_def)

lemma sorted_ordered: "sorted (map created_desc_key (order_by_created_at_desc scan rs))"
  by (simp add: order_by_created_at_desc_def)

lemma set_ordered: "set (order_by_created_at_desc scan rs) = set rs"
  by (simp add: order_by_created_at_desc_def)

lemma length_ordered: "length (order_by_created_at_desc scan rs) = length rs"
  by (simp add: order_by_created_at_desc_def)

lemma sorted_desc_users:
  assumes "list_all (\<lambda>r. Valid (row_created_at r)) rs"
  shows "sorted_wrt (\<lambda>a b. CreatedAt b \<le> CreatedAt a)
           (map (\<lambda>r. list_row_to_user (select_list_row r)) (order_by_created_at_desc scan rs))"
proof -
  let ?xs = "order_by_created_at_desc scan rs"
  have v: "\<forall>r \<in> set ?xs. Valid (row_created_at r)"
    using assms by (simp add: set_ordered list_all_iff)
  have k: "sorted_wrt (\<lambda>a b. created_desc_key a \<le> created_desc_key b) ?xs"
    using sorted_ordered [of scan rs] by (simp add: sorted_map)
  have "sorted_wrt (\<lambda>a b. CreatedAt (list_row_to_user (select_list_row b))
                          \<le> CreatedAt (list_row_to_user (select_list_row a))) ?xs"
    by (rule sorted_wrt_mono_rel [OF _ k])
       (use v in \<open>auto simp: created_at_to_user created_desc_key_def\<close>)
  then show ?thesis by (simp add: sorted_wrt_map)
qed

lemma distinct_ids_ordered:
  assumes "distinct (map row_id rs)"
  shows "distinct (map row_id (order_by_created_at_desc scan rs))"
proof -
  have "mset (map row_id (order_by_created_at_desc scan rs)) = mset (map row_id rs)"
    by (simp add: mset_ordered)
  then show ?thesis using assms by (metis mset_eq_imp_distinct_iff)
qed

lemma ten_split:
  assumes "length xs = 10"
  shows "take 5 xs @ take 5 (drop 5 xs) = xs"
  using assms by (metis append_take_drop_id length_drop take_all_iff order_refl add_diff_cancel_left' numeral_Bit0 )

lemma mset_users_ordered:
  "mset (map f (order_by_created_at_desc scan rs)) = mset (map f rs)"
  by (simp add: mset_ordered)

text \<open>
  When the creation times of the rows are pairwise distinct, the SQL alone fixes the order:
  any arrangement of the rows in descending order of creation time is the one of the model,
  whatever the scan.
\<close>

lemma filter_same_key:
  assumes "distinct (map f zs)" and "k \<in> set zs"
  shows "filter (\<lambda>x. f k = f x) zs = [k]"
  using assms
proof (induction zs)
  case Nil
  then show ?case by simp
next
  case (Cons z zs)
  show ?case
  proof (cases "z = k")
    case True
    then have "\<forall>x \<in> set zs. f k \<noteq> f x"
      using Cons.prems(1) by force
    then have "filter (\<lambda>x. f k = f x) zs = []"
      by (simp add: filter_empty_conv)
    then show ?thesis using True by simp
  next
    case False
    then have "k \<in> set zs" using Cons.prems(2) by simp
    moreover have "f k \<noteq> f z"
      using Cons.prems(1) \<open>k \<in> set zs\<close> by (auto simp: image_iff)
    ultimately show ?thesis using Cons by simp
  qed
qed

lemma sort_key_determined:
  assumes d: "distinct (map f rs)"
    and m: "mset xs = mset rs"
    and s: "sorted (map f xs)"
  shows "sort_key f rs = xs"
proof -
  have dx: "distinct (map f xs)"
    using d m by (metis mset_eq_imp_distinct_iff mset_map)
  show ?thesis
  proof (rule properties_for_sort_key [OF m _ s])
    fix k
    assume k: "k \<in> set xs"
    then have "k \<in> set rs" using m by (metis mset_eq_setD)
    then show "filter (\<lambda>x. f k = f x) xs = filter (\<lambda>x. f k = f x) rs"
      using filter_same_key [OF dx k] filter_same_key [OF d] by simp
  qed
qed

lemma order_determined:
  assumes d: "distinct (map created_desc_key rs)"
    and m: "mset xs = mset rs"
    and s: "sorted (map created_desc_key xs)"
  shows "xs = order_by_created_at_desc scan rs"
proof -
  let ?ys = "sort_key (scan_position scan) rs"
  have "distinct (map created_desc_key ?ys)"
    using d by (metis mset_eq_imp_distinct_iff mset_map mset_sort)
  moreover have "mset xs = mset ?ys"
    using m by simp
  ultimately have "sort_key created_desc_key ?ys = xs"
    using s by (rule sort_key_determined)
  then show ?thesis by (simp add: order_by_created_at_desc_def)
qed

lemma order_scan_irrelevant:
  assumes "distinct (map created_desc_key rs)"
  shows "order_by_created_at_desc scan rs = order_by_created_at_desc scan' rs"
  by (rule order_determined [OF assms mset_ordered sorted_ordered])

lemma distinct_keys:
  assumes v: "list_all (\<lambda>r. Valid (row_created_at r)) rs"
    and t: "distinct (map (\<lambda>r. Time (row_created_at r)) rs)"
  shows "distinct (map created_desc_key rs)"
proof -
  have "distinct rs" and i: "inj_on (\<lambda>r. Time (row_created_at r)) (set rs)"
    using t by (simp_all add: distinct_map)
  moreover have "inj_on created_desc_key (set rs)"
  proof (rule inj_onI)
    fix a b
    assume "a \<in> set rs" "b \<in> set rs" "created_desc_key a = created_desc_key b"
    then have "Time (row_created_at a) = Time (row_created_at b)"
      using v by (simp add: created_desc_key_def list_all_iff)
    then show "a = b"
      using i \<open>a \<in> set rs\<close> \<open>b \<in> set rs\<close> by (simp add: inj_on_def)
  qed
  ultimately show ?thesis by (simp add: distinct_map)
qed

text \<open>
  Conversely every arrangement of the rows in descending order of creation time is what the
  storage returns for some scan: the scan that lists the identifiers in that arrangement.
\<close>

lemma scan_position_own:
  assumes "distinct (map row_id xs)"
  shows "map (scan_position (map row_id xs)) xs = [0..<length xs]"
  using assms
proof (induction xs)
  case Nil
  then show ?case by simp
next
  case (Cons x xs)
  have "scan_position (map row_id (x # xs)) y = Suc (scan_position (map row_id xs) y)"
    if "y \<in> set xs" for y
  proof -
    have "row_id x \<noteq> row_id y"
      using Cons.prems that by (auto simp: image_iff)
    then show ?thesis by (simp add: scan_position_def)
  qed
  then have "map (scan_position (map row_id (x # xs))) xs
               = map Suc (map (scan_position (map row_id xs)) xs)"
    by simp
  also have "\<dots> = map Suc [0..<length xs]"
    using Cons by simp
  finally have tl: "map (scan_position (map row_id (x # xs))) xs = map Suc [0..<length xs]" .
  have hd: "scan_position (map row_id (x # xs)) x = 0"
    by (simp add: scan_position_def)
  have "map (scan_position (map row_id (x # xs))) (x # xs) = 0 # map Suc [0..<length xs]"
    using hd tl by simp
  also have "\<dots> = [0..<length (x # xs)]"
    by (simp add: map_Suc_upt upt_conv_Cons del: upt_Suc)
  finally show ?case .
qed

lemma every_order_has_scan:
  assumes d: "distinct (map row_id rs)"
    and m: "mset xs = mset rs"
    and s: "sorted (map created_desc_key xs)"
  shows "order_by_created_at_desc (map row_id xs) rs = xs"
proof -
  let ?pos = "scan_position (map row_id xs)"
  have dx: "distinct (map row_id xs)"
    using d m by (metis mset_eq_imp_distinct_iff mset_map)
  have p: "map ?pos xs = [0..<length xs]"
    by (rule scan_position_own [OF dx])
  have dp: "distinct (map ?pos xs)"
    unfolding p by simp
  then have "distinct (map ?pos rs)"
    using m by (metis mset_eq_imp_distinct_iff mset_map)
  moreover have "sorted (map ?pos xs)"
    unfolding p by simp
  ultimately have "sort_key ?pos rs = xs"
    using m by (intro sort_key_determined)
  moreover have "sort_key created_desc_key xs = xs"
    using s by (rule sort_key_id_if_sorted)
  ultimately show ?thesis
    by (simp add: order_by_created_at_desc_def)
qed

text \<open>
  Claim C8, amended. On a well-formed store that answers the query, \<open>GetUsersWithPagination\<close>
  with a limit and an offset that are not negative returns at most \<open>limit\<close> users: the
  window \<open>take limit (drop offset \<dots>)\<close> of an arrangement of all users in descending order of
  creation time. When the creation times are pairwise distinct that arrangement is the one
  \<open>GetAllUsers\<close> returns, and on a store of 10 users the pages (5, 0) and (5, 5) have 5 users
  each, share no user, together hold the identifiers of all 10 rows, and each is in
  descending order of creation time, whatever the scans of the storage.
\<close>

theorem listPaged_window:
  assumes "wf_db d" and "faults d = []" and "0 \<le> lim" and "0 \<le> off"
  shows "(\<exists>page d1 everyone.
            repo_GetUsersWithPagination lim off d = (Inr page, d1)
          \<and> users d1 = users d
          \<and> page = take (nat lim) (drop (nat off) everyone)
          \<and> int (length page) \<le> lim
          \<and> mset everyone = mset (map (\<lambda>r. list_row_to_user (select_list_row r)) (users d))
          \<and> sorted_wrt (\<lambda>a b. CreatedAt b \<le> CreatedAt a) everyone
          \<and> sorted_wrt (\<lambda>a b. CreatedAt b \<le> CreatedAt a) page)
       \<and> (distinct (map (\<lambda>r. Time (row_created_at r)) (users d)) \<longrightarrow>
            (\<exists>page d1 everyone d2.
               repo_GetUsersWithPagination lim off d = (Inr page, d1)
             \<and> repo_GetAllUsers d = (Inr everyone, d2)
             \<and> page = take (nat lim) (drop (nat off) everyone))
          \<and> (length (users d) = 10 \<longrightarrow>
               (\<exists>p1 d1 p2 d2.
                  repo_GetUsersWithPagination 5 0 d = (Inr p1, d1)
                \<and> repo_GetUsersWithPagination 5 5 d1 = (Inr p2, d2)
                \<and> length p1 = 5 \<and> length p2 = 5
                \<and> set (map ID p1) \<inter> set (map ID p2) = {}
                \<and> set p1 \<inter> set p2 = {}
                \<and> mset (map ID (p1 @ p2)) = mset (map row_id (users d))
                \<and> sorted_wrt (\<lambda>a b. CreatedAt b \<le> CreatedAt a) p1
                \<and> sorted_wrt (\<lambda>a b. CreatedAt b \<le> CreatedAt a) p2)))"
proof -
  let ?f = "\<lambda>r. list_row_to_user (select_list_row r)"
  let ?desc = "\<lambda>a b. CreatedAt b \<le> CreatedAt (a::User)"
  let ?xs = "order_by_created_at_desc (fst (next_scan d)) (users d)"
  have valid: "list_all (\<lambda>r. Valid (row_created_at r)) (users d)"
    using assms(1) by (simp add: wf_db_def list_all_iff)
  have sorted_all: "sorted_wrt ?desc (map ?f (order_by_created_at_desc s (users d)))" for s
    by (rule sorted_desc_users [OF valid])
  have ids: "map ID (map ?f rs) = map row_id rs" for rs
    by (simp add: id_to_user)
  obtain d1 where page: "repo_GetUsersWithPagination lim off d
        = (Inr (map ?f (take (nat lim) (drop (nat off) ?xs))), d1)"
    and d1: "users d1 = users d"
    using paged_nofault [OF assms(2-4)] by blast
  have window: "map ?f (take (nat lim) (drop (nat off) ?xs)) = take (nat lim) (drop (nat off) (map ?f ?xs))"
    by (simp add: take_map drop_map)
  have general: "\<exists>page d1 everyone.
            repo_GetUsersWithPagination lim off d = (Inr page, d1)
          \<and> users d1 = users d
          \<and> page = take (nat lim) (drop (nat off) everyone)
          \<and> int (length page) \<le> lim
          \<and> mset everyone = mset (map ?f (users d))
          \<and> sorted_wrt ?desc everyone
          \<and> sorted_wrt ?desc page"
  proof (intro exI conjI)
    show "repo_GetUsersWithPagination lim off d
            = (Inr (map ?f (take (nat lim) (drop (nat off) ?xs))), d1)"
      by (rule page)
    show "users d1 = users d" by (rule d1)
    show "map ?f (take (nat lim) (drop (nat off) ?xs)) = take (nat lim) (drop (nat off) (map ?f ?xs))"
      by (rule window)
    show "int (length (map ?f (take (nat lim) (drop (nat off) ?xs)))) \<le> lim"
      using assms(3) by simp
    show "mset (map ?f ?xs) = mset (map ?f (users d))"
      by (rule mset_users_ordered)
    show "sorted_wrt ?desc (map ?f ?xs)"
      by (rule sorted_all)
    have "sorted_wrt ?desc (take (nat lim) (drop (nat off) (map ?f ?xs)))"
      by (intro sorted_wrt_take sorted_wrt_drop sorted_all)
    then show "sorted_wrt ?desc (map ?f (take (nat lim) (drop (nat off) ?xs)))"
      by (simp add: take_map drop_map)
  qed
  have fixed: "(\<exists>page d1 everyone d2.
               repo_GetUsersWithPagination lim off d = (Inr page, d1)
             \<and> repo_GetAllUsers d = (Inr everyone, d2)
             \<and> page = take (nat lim) (drop (nat off) everyone))
          \<and> (length (users d) = 10 \<longrightarrow>
               (\<exists>p1 d1 p2 d2.
                  repo_GetUsersWithPagination 5 0 d = (Inr p1, d1)
                \<and> repo_GetUsersWithPagination 5 5 d1 = (Inr p2, d2)
                \<and> length p1 = 5 \<and> length p2 = 5
                \<and> set (map ID p1) \<inter> set (map ID p2) = {}
                \<and> set p1 \<inter> set p2 = {}
                \<and> mset (map ID (p1 @ p2)) = mset (map row_id (users d))
                \<and> sorted_wrt ?desc p1
                \<and> sorted_wrt ?desc p2))"
    if times: "distinct (map (\<lambda>r. Time (row_created_at r)) (users d))"
  proof (intro conjI impI)
    obtain d2 where "repo_GetAllUsers d = (Inr (map ?f ?xs), d2)"
      using all_nofault [OF assms(2)] by blast
    with page window
    show "\<exists>page d1 everyone d2.
               repo_GetUsersWithPagination lim off d = (Inr page, d1)
             \<and> repo_GetAllUsers d = (Inr everyone, d2)
             \<and> page = take (nat lim) (drop (nat off) everyone)"
      by blast
  next
    assume ten: "length (users d) = 10"
    have keys: "distinct (map created_desc_key (users d))"
      by (rule distinct_keys [OF valid times])
    let ?a = "take 5 ?xs"
    let ?b = "take 5 (drop 5 ?xs)"
    have len: "length ?xs = 10"
      using ten by (simp add: length_ordered)
    have split: "?a @ ?b = ?xs"
      by (rule ten_split [OF len])
    have dist: "distinct (map row_id ?xs)"
      using assms(1) by (simp add: wf_db_def distinct_ids_ordered)
    have "distinct (map row_id ?a @ map row_id ?b)"
      using dist split by (metis map_append)
    then have disj: "set (map row_id ?a) \<inter> set (map row_id ?b) = {}"
      by simp
    obtain e1 where p1: "repo_GetUsersWithPagination 5 0 d = (Inr (map ?f ?a), e1)"
      and e1: "users e1 = users d" "faults e1 = []"
      using paged_nofault [OF assms(2), of 5 0] by auto
    have same: "order_by_created_at_desc (fst (next_scan e1)) (users e1) = ?xs"
      unfolding e1(1) by (rule order_scan_irrelevant [OF keys])
    obtain e2 where p2: "repo_GetUsersWithPagination 5 5 e1 = (Inr (map ?f ?b), e2)"
      using paged_nofault [OF e1(2), of 5 5] same by auto
    have idsdisj: "set (map ID (map ?f ?a)) \<inter> set (map ID (map ?f ?b)) = {}"
      unfolding ids by (rule disj)
    have setdisj: "set (map ?f ?a) \<inter> set (map ?f ?b) = {}"
    proof (rule ccontr)
      assume "set (map ?f ?a) \<inter> set (map ?f ?b) \<noteq> {}"
      then obtain u where "u \<in> set (map ?f ?a)" "u \<in> set (map ?f ?b)" by blast
      then have "ID u \<in> set (map ID (map ?f ?a))" "ID u \<in> set (map ID (map ?f ?b))"
        by auto
      with idsdisj show False by blast
    qed
    have cover: "mset (map ID (map ?f ?a @ map ?f ?b)) = mset (map row_id (users d))"
    proof -
      have "map ID (map ?f ?a @ map ?f ?b) = map row_id (?a @ ?b)"
        by (simp add: id_to_user)
      then have "map ID (map ?f ?a @ map ?f ?b) = map row_id ?xs"
        unfolding split .
      then show ?thesis
        using mset_users_ordered [of row_id "fst (next_scan d)" "users d"] by simp
    qed
    have s1: "sorted_wrt ?desc (map ?f ?a)"
      using sorted_wrt_take [OF sorted_all, of 5] by (simp add: take_map)
    have s2: "sorted_wrt ?desc (map ?f ?b)"
      using sorted_wrt_take [OF sorted_wrt_drop [OF sorted_all, of 5], of 5]
      by (simp add: take_map drop_map)
    show "\<exists>p1 d1 p2 d2.
                  repo_GetUsersWithPagination 5 0 d = (Inr p1, d1)
                \<and> repo_GetUsersWithPagination 5 5 d1 = (Inr p2, d2)
                \<and> length p1 = 5 \<and> length p2 = 5
                \<and> set (map ID p1) \<inter> set (map ID p2) = {}
                \<and> set p1 \<inter> set p2 = {}
                \<and> mset (map ID (p1 @ p2)) = mset (map row_id (users d))
                \<and> sorted_wrt ?desc p1
                \<and> sorted_wrt ?desc p2"
      apply (rule exI [of _ "map ?f ?a"])
      apply (rule exI [of _ e1])
      apply (rule exI [of _ "map ?f ?b"])
      apply (rule exI [of _ e2])
      using p1 p2 idsdisj setdisj cover s1 s2 len by simp
  qed
  show ?thesis
    using general fixed by blast
qed

theorem listPaged_window_witness:
  "wf_db sample_db \<and> faults sample_db = [] \<and> (0::int) \<le> 5 \<and> (0::int) \<le> 5
   \<and> distinct (map (\<lambda>r. Time (row_created_at r)) (users sample_db))
   \<and> length (users sample_db) = 10
   \<and> map_sum id (map ID) (fst (repo_GetUsersWithPagination 5 5 sample_db)) = Inr [5, 4, 3, 2, 1]
   \<and> (\<exists>p1 d1 p2 d2.
               repo_GetUsersWithPagination 5 0 sample_db = (Inr p1, d1)
             \<and> repo_GetUsersWithPagination 5 5 d1 = (Inr p2, d2)
             \<and> length p1 = 5 \<and> length p2 = 5
             \<and> set (map ID p1) \<inter> set (map ID p2) = {}
             \<and> set p1 \<inter> set p2 = {}
             \<and> mset (map ID (p1 @ p2)) = mset (map row_id (users sample_db))
             \<and> sorted_wrt (\<lambda>a b. CreatedAt b \<le> CreatedAt a) p1
             \<and> sorted_wrt (\<lambda>a b. CreatedAt b \<le> CreatedAt a) p2)"
proof -
  have w: "wf_db sample_db" by (rule wf_sample_db)
  have f: "faults sample_db = []" by (simp add: sample_db_def)
  have l: "length (users sample_db) = 10" by (simp add: sample_db_def)
  have t: "distinct (map (\<lambda>r. Time (row_created_at r)) (users sample_db))"
    by code_simp
  have e: "map_sum id (map ID) (fst (repo_GetUsersWithPagination 5 5 sample_db)) = Inr [5, 4, 3, 2, 1]"
    by code_simp
  show ?thesis
    using listPaged_window [OF w f, of 5 5] w f l t e by simp
qed

text \<open>
  Against claim C8 as stated: in a store of 10 users where users 5 and 6 were created at
  the same time, the first page ends with user 5 and the second, for which the storage
  read user 6 first, begins with user 5 again; user 6 is on neither page. Both pages are
  in descending order of creation time.
\<close>

theorem tied_pages_overlap_counterexample:
  "wf_db tied_db \<and> faults tied_db = [] \<and> length (users tied_db) = 10
   \<and> map_sum id (map ID) (fst (repo_GetUsersWithPagination 5 0 tied_db)) = Inr [9, 10, 7, 8, 5]
   \<and> map_sum id (map ID)
        (fst (repo_GetUsersWithPagination 5 5 (snd (repo_GetUsersWithPagination 5 0 tied_db))))
      = Inr [5, 3, 4, 1, 2]
   \<and> map_sum id (map CreatedAt) (fst (repo_GetUsersWithPagination 5 0 tied_db))
      = Inr [1005, 1005, 1004, 1004, 1003]
   \<and> map_sum id (map CreatedAt)
        (fst (repo_GetUsersWithPagination 5 5 (snd (repo_GetUsersWithPagination 5 0 tied_db))))
      = Inr [1003, 1002, 1002, 1001, 1001]"
  by code_simp

section \<open>Update\<close>

lemma begin_query_keeps:
  "begin_query n d = (f, d') \<Longrightarrow> users d' = users d \<and> next_id d' = next_id d"
  by (auto simp: begin_query_def split: list.splits)

lemma q_UpdateUser_users:
  assumes "q_UpdateUser p d = (e, d')"
  shows "next_id d' = next_id d
       \<and> (users d' = users d \<or> (e = None \<and> users d' = map (set_user_columns p) (users d)))"
proof -
  obtain f d1 where b: "begin_query ''UpdateUser'' d = (f, d1)"
    by (cases "begin_query ''UpdateUser'' d")
  note k = begin_query_keeps [OF b]
  show ?thesis
    using assms b k by (auto simp: q_UpdateUser_def split: option.splits if_splits)
qed

lemma q_UpdateUser_success:
  assumes "q_UpdateUser p d = (None, d')" and "list_ex (\<lambda>r. row_id r = up_ID p) (users d)"
  shows "users d' = map (set_user_columns p) (users d)"
proof -
  obtain f d1 where b: "begin_query ''UpdateUser'' d = (f, d1)"
    by (cases "begin_query ''UpdateUser'' d")
  note k = begin_query_keeps [OF b]
  show ?thesis
    using assms b k by (auto simp: q_UpdateUser_def split: option.splits if_splits)
qed

lemma repo_UpdateUser_query:
  "repo_UpdateUser now user d = ((err, user'), d') \<Longrightarrow>
   \<exists>e. q_UpdateUser \<lparr>up_ID = ID user, up_Username = Username user, up_Email = Email user,
                      up_UpdatedAt = timestamptz now\<rparr> d = (e, d') \<and> (e = None \<longleftrightarrow> err = None)"
  by (auto simp: repo_UpdateUser_def Let_def split: prod.splits option.splits)

text \<open>
  Claim C7. Whatever \<open>UpdateUser\<close> returns, the table has the same rows in the same
  places and the sequence is untouched; every row keeps its identifier, its password and
  its created-at; every row with another identifier is unchanged; a row whose email
  equals the email of the update keeps its email; and when the update succeeds, the row
  with the identifier holds the username, the email and the updated-at of the update.
\<close>

theorem UpdateUser_frame:
  assumes "repo_UpdateUser now user d = ((err, user'), d')"
  shows "length (users d') = length (users d) \<and> next_id d' = next_id d
       \<and> (\<forall>i < length (users d).
             row_id (users d' ! i) = row_id (users d ! i)
           \<and> row_password (users d' ! i) = row_password (users d ! i)
           \<and> row_created_at (users d' ! i) = row_created_at (users d ! i)
           \<and> (row_id (users d ! i) \<noteq> ID user \<longrightarrow> users d' ! i = users d ! i)
           \<and> (Email user = row_email (users d ! i) \<longrightarrow>
                 row_email (users d' ! i) = row_email (users d ! i))
           \<and> (err = None \<and> row_id (users d ! i) = ID user \<longrightarrow>
                 row_username (users d' ! i) = Username user
               \<and> row_email (users d' ! i) = Email user
               \<and> row_updated_at (users d' ! i) = \<lparr>Time = now, Valid = True\<rparr>))"
proof -
  let ?p = "\<lparr>up_ID = ID user, up_Username = Username user, up_Email = Email user,
             up_UpdatedAt = timestamptz now\<rparr>"
  obtain e where q: "q_UpdateUser ?p d = (e, d')" and en: "e = None \<longleftrightarrow> err = None"
    using repo_UpdateUser_query [OF assms] by blast
  from q_UpdateUser_users [OF q]
  have n: "next_id d' = next_id d"
    and u: "users d' = users d \<or> (e = None \<and> users d' = map (set_user_columns ?p) (users d))"
    by simp_all
  have len: "length (users d') = length (users d)"
    using u by auto
  have rows: "row_id (users d' ! i) = row_id (users d ! i)
           \<and> row_password (users d' ! i) = row_password (users d ! i)
           \<and> row_created_at (users d' ! i) = row_created_at (users d ! i)
           \<and> (row_id (users d ! i) \<noteq> ID user \<longrightarrow> users d' ! i = users d ! i)
           \<and> (Email user = row_email (users d ! i) \<longrightarrow>
                 row_email (users d' ! i) = row_email (users d ! i))
           \<and> (err = None \<and> row_id (users d ! i) = ID user \<longrightarrow>
                 row_username (users d' ! i) = Username user
               \<and> row_email (users d' ! i) = Email user
               \<and> row_updated_at (users d' ! i) = \<lparr>Time = now, Valid = True\<rparr>)"
    if i: "i < length (users d)" for i
  proof (cases "err = None \<and> row_id (users d ! i) = ID user")
    case True
    then have "list_ex (\<lambda>r. row_id r = up_ID ?p) (users d)"
      using i by (auto simp: list_ex_iff)
    with q en True have "users d' = map (set_user_columns ?p) (users d)"
      by (simp add: q_UpdateUser_success)
    then show ?thesis
      using i True by (simp add: set_user_columns_def timestamptz_def)
  next
    case False
    from u show ?thesis
    proof
      assume "users d' = users d"
      then show ?thesis using False by auto
    next
      assume "e = None \<and> users d' = map (set_user_columns ?p) (users d)"
      then show ?thesis
        using i False en by (auto simp: set_user_columns_def)
    qed
  qed
  show ?thesis
    using len n rows by blast
qed

theorem UpdateUser_frame_witness:
  "repo_UpdateUser 5000 rename3 sample_db
     = ((None, rename3\<lparr>UpdatedAt := 5000\<rparr>), snd (repo_UpdateUser 5000 rename3 sample_db))
   \<and> length (users (snd (repo_UpdateUser 5000 rename3 sample_db))) = 10
   \<and> row_id (users sample_db ! 2) = ID rename3
   \<and> Email rename3 = row_email (users sample_db ! 2)
   \<and> users (snd (repo_UpdateUser 5000 rename3 sample_db)) ! 2
       = (sample_row 3)\<lparr>row_username := ''renamed'', row_updated_at := \<lparr>Time = 5000, Valid = True\<rparr>\<rparr>
   \<and> row_email (users (snd (repo_UpdateUser 5000 rename3 sample_db)) ! 2) = ''xxx@example.com''
   \<and> row_password (users (snd (repo_UpdateUser 5000 rename3 sample_db)) ! 2) = ''hash''
   \<and> users (snd (repo_UpdateUser 5000 rename3 sample_db)) ! 3 = users sample_db ! 3"
proof -
  let ?r = "repo_UpdateUser 5000 rename3 sample_db"
  have e: "fst ?r = (None, rename3\<lparr>UpdatedAt := 5000\<rparr>)"
    by code_simp
  have h: "?r = ((None, rename3\<lparr>UpdatedAt := 5000\<rparr>), snd ?r)"
    using e by (simp add: prod_eq_iff)
  have l: "length (users sample_db) = 10" "row_id (users sample_db ! 2) = ID rename3"
    "Email rename3 = row_email (users sample_db ! 2)" "row_id (users sample_db ! 3) \<noteq> ID rename3"
    "row_password (users sample_db ! 2) = ''hash''"
    by code_simp+
  have u: "users (snd ?r) ! 2
       = (sample_row 3)\<lparr>row_username := ''renamed'', row_updated_at := \<lparr>Time = 5000, Valid = True\<rparr>\<rparr>"
    by code_simp
  have m: "row_email (users sample_db ! 2) = ''xxx@example.com''"
    by code_simp
  from UpdateUser_frame [OF h] l
  have "length (users (snd ?r)) = 10"
    and "row_email (users (snd ?r) ! 2) = row_email (users sample_db ! 2)"
    and "row_password (users (snd ?r) ! 2) = ''hash''"
    and "users (snd ?r) ! 3 = users sample_db ! 3"
    by simp_all
  with h l u m show ?thesis by simp
qed

section \<open>Create, then read\<close>

lemma find_append_last:
  "\<not> list_ex P xs \<Longrightarrow> P x \<Longrightarrow> find P (xs @ [x]) = Some x"
  by (induction xs) auto

text \<open>
  Claim C9. On a well-formed store that answers both queries and whose sequence is not
  exhausted, \<open>CreateUser\<close> of a user whose username and email no row holds succeeds,
  and \<open>GetUserByID\<close> of the identifier it assigned returns a user with that identifier,
  which is positive and was not in the table before, with created-at equal to updated-at
  (both the time of the creation) and the username, email and password given.
\<close>

theorem create_then_getByID:
  assumes "wf_db d" and "faults d = []" and "next_id d \<le> 2147483647"
    and "Username user \<notin> set (map row_username (users d))"
    and "Email user \<notin> set (map row_email (users d))"
  shows "\<exists>user' d' got d''.
           repo_CreateUser now user d = ((None, user'), d')
         \<and> repo_GetUserByID (ID user') d' = (Inr got, d'')
         \<and> ID got = ID user' \<and> 0 < ID got \<and> ID got \<notin> set (map row_id (users d))
         \<and> CreatedAt got = UpdatedAt got \<and> CreatedAt got = now
         \<and> Username got = Username user \<and> Email got = Email user
         \<and> Password got = Password user"
proof -
  let ?row = "\<lparr>row_id = next_id d, row_username = Username user, row_email = Email user,
               row_password = Password user, row_created_at = timestamptz now,
               row_updated_at = timestamptz now\<rparr>"
  let ?d' = "d\<lparr>calls := calls d @ [''CreateUser''], next_id := next_id d + 1,
               users := users d @ [?row]\<rparr>"
  have fresh: "\<not> list_ex (\<lambda>r. row_id r = next_id d) (users d)"
    using assms(1) by (auto simp: wf_db_def list_ex_iff list_all_iff)
  have nu: "\<not> list_ex (\<lambda>r. row_username r = Username user) (users d)"
    using assms(4) by (force simp: list_ex_iff)
  have ne: "\<not> list_ex (\<lambda>r. row_email r = Email user) (users d)"
    using assms(5) by (force simp: list_ex_iff)
  have c: "repo_CreateUser now user d =
             ((None, user\<lparr>ID := next_id d, CreatedAt := now, UpdatedAt := now\<rparr>), ?d')"
    using assms(2,3) fresh nu ne
    by (simp add: repo_CreateUser_def q_CreateUser_def begin_query_nofault Let_def)
  have f: "find (\<lambda>r. row_id r = next_id d) (users d @ [?row]) = Some ?row"
    using fresh by (simp add: find_append_last)
  have g: "repo_GetUserByID (next_id d) ?d' =
             (Inr (sqlcUserToModelUser ?row), ?d'\<lparr>calls := calls ?d' @ [''GetUserByID'']\<rparr>)"
    using assms(2) f by (simp add: repo_GetUserByID_def q_GetUserByID_def begin_query_nofault)
  have pos: "0 < next_id d"
    using assms(1) by (simp add: wf_db_def)
  have notin: "next_id d \<notin> set (map row_id (users d))"
    using fresh by (auto simp: list_ex_iff)
  show ?thesis
    apply (rule exI [of _ "user\<lparr>ID := next_id d, CreatedAt := now, UpdatedAt := now\<rparr>"])
    apply (rule exI [of _ ?d'])
    apply (rule exI [of _ "sqlcUserToModelUser ?row"])
    apply (rule exI [of _ "?d'\<lparr>calls := calls ?d' @ [''GetUserByID'']\<rparr>"])
    using c g pos notin by (simp add: sqlcUserToModelUser_def timestamptz_def)
qed

theorem create_then_getByID_witness:
  "wf_db sample_db \<and> faults sample_db = [] \<and> next_id sample_db \<le> 2147483647
   \<and> Username john \<notin> set (map row_username (users sample_db))
   \<and> Email john \<notin> set (map row_email (users sample_db))
   \<and> fst (repo_CreateUser 7777 john sample_db) = (None, john\<lparr>ID := 11, CreatedAt := 7777, UpdatedAt := 7777\<rparr>)
   \<and> (\<exists>user' d' got d''.
           repo_CreateUser 7777 john sample_db = ((None, user'), d')
         \<and> repo_GetUserByID (ID user') d' = (Inr got, d'')
         \<and> ID got = ID user' \<and> 0 < ID got \<and> ID got \<notin> set (map row_id (users sample_db))
         \<and> CreatedAt got = UpdatedAt got \<and> CreatedAt got = 7777
         \<and> Username got = Username john \<and> Email got = Email john
         \<and> Password got = Password john)"
proof -
  have w: "wf_db sample_db" by (rule wf_sample_db)
  have f: "faults sample_db = []" by (simp add: sample_db_def)
  have n: "next_id sample_db \<le> 2147483647" by (simp add: sample_db_def)
  have u: "Username john \<notin> set (map row_username (users sample_db))"
    by code_simp
  have e: "Email john \<notin> set (map row_email (users sample_db))"
    by code_simp
  have c: "fst (repo_CreateUser 7777 john sample_db) = (None, john\<lparr>ID := 11, CreatedAt := 7777, UpdatedAt := 7777\<rparr>)"
    by code_simp
  from create_then_getByID [OF w f n u e, of 7777] w f n u e c
  show ?thesis by blast
qed

section \<open>The request pipeline\<close>

lemma JSON_fields [simp]:
  "Header (JSON code obj c) = Header (writeContentType ''application/json; charset=utf-8'' c)"
  "Keys (JSON code obj c) = Keys c"
  "Errors (JSON code obj c) = Errors c"
  "Aborted (JSON code obj c) = Aborted c"
  "Req (JSON code obj c) = Req c"
  "Db (JSON code obj c) = Db c"
  "Written (JSON code obj c) = True"
  by (simp_all add: JSON_def Let_def writeContentType_def Status_set_def)

lemma JSON_Status: "\<not> Written c \<Longrightarrow> Status (JSON code obj c) = code"
  by (simp add: JSON_def Let_def writeContentType_def Status_set_def)

lemma writeContentType_Db [simp]:
  "Header (writeContentType v (c\<lparr>Db := d\<rparr>)) = Header (writeContentType v c)"
  by (simp add: writeContentType_def)

lemma write_conflict_fields [simp]:
  "Header (write_conflict e w c) = Header (writeContentType ''application/json; charset=utf-8'' c)"
  "Keys (write_conflict e w c) = Keys c"
  "Errors (write_conflict e w c) = Errors c"
  "Aborted (write_conflict e w c) = Aborted c"
  by (simp_all add: write_conflict_def split: go_error.splits)

lemma h_CreateUser_fields:
  "Header (h_CreateUser c) = Header (writeContentType ''application/json; charset=utf-8'' c)
   \<and> Keys (h_CreateUser c) = Keys c \<and> Errors (h_CreateUser c) = Errors c"
  by (simp add: h_CreateUser_def Let_def split: sum.splits prod.splits option.splits)

lemma h_GetAllUsers_fields:
  "Header (h_GetAllUsers c) = Header (writeContentType ''application/json; charset=utf-8'' c)
   \<and> Keys (h_GetAllUsers c) = Keys c \<and> Errors (h_GetAllUsers c) = Errors c"
  by (simp add: h_GetAllUsers_def Let_def split: sum.splits prod.splits option.splits)

lemma h_GetUserByID_fields:
  "Header (h_GetUserByID c) = Header (writeContentType ''application/json; charset=utf-8'' c)
   \<and> Keys (h_GetUserByID c) = Keys c \<and> Errors (h_GetUserByID c) = Errors c"
  by (simp add: h_GetUserByID_def Let_def split: sum.splits prod.splits option.splits)

lemma h_UpdateUser_fields:
  "Header (h_UpdateUser c) = Header (writeContentType ''application/json; charset=utf-8'' c)
   \<and> Keys (h_UpdateUser c) = Keys c \<and> Errors (h_UpdateUser c) = Errors c"
  by (simp add: h_UpdateUser_def Let_def split: sum.splits prod.splits option.splits)

lemma h_DeleteUser_fields:
  "Header (h_DeleteUser c) = Header (writeContentType ''application/json; charset=utf-8'' c)
   \<and> Keys (h_DeleteUser c) = Keys c \<and> Errors (h_DeleteUser c) = Errors c"
  by (simp add: h_DeleteUser_def Let_def split: sum.splits prod.splits option.splits)

lemma h_GetUsersWithPagination_fields:
  "Header (h_GetUsersWithPagination c) = Header (writeContentType ''application/json; charset=utf-8'' c)
   \<and> Keys (h_GetUsersWithPagination c) = Keys c \<and> Errors (h_GetUsersWithPagination c) = Errors c"
  by (simp add: h_GetUsersWithPagination_def Let_def split: sum.splits prod.splits option.splits)

lemma health_fields:
  "Header (h_Ping c) = Header (writeContentType ''application/json; charset=utf-8'' c)
   \<and> Keys (h_Ping c) = Keys c \<and> Errors (h_Ping c) = Errors c"
  "Header (h_HealthCheck c) = Header (writeContentType ''application/json; charset=utf-8'' c)
   \<and> Keys (h_HealthCheck c) = Keys c \<and> Errors (h_HealthCheck c) = Errors c"
  "Header (h_Readiness c) = Header (writeContentType ''application/json; charset=utf-8'' c)
   \<and> Keys (h_Readiness c) = Keys c \<and> Errors (h_Readiness c) = Errors c"
  "Header (h_Liveness c) = Header (writeContentType ''application/json; charset=utf-8'' c)
   \<and> Keys (h_Liveness c) = Keys c \<and> Errors (h_Liveness c) = Errors c"
  by (simp_all add: h_Ping_def h_HealthCheck_def h_Readiness_def h_Liveness_def
        split: sum.splits prod.splits option.splits)

lemma routed_fields:
  assumes "match_route m p = Some (h, ps)"
  shows "Header (h c) = Header (writeContentType ''application/json; charset=utf-8'' c)
         \<and> Keys (h c) = Keys c \<and> Errors (h c) = Errors c"
  using assms
  by (auto simp: match_route_def h_CreateUser_fields h_GetAllUsers_fields h_GetUserByID_fields
        h_UpdateUser_fields h_DeleteUser_fields h_GetUsersWithPagination_fields health_fields
        split: if_splits)

lemma map_of_filter_key:
  "map_of (filter (\<lambda>kv. fst kv \<noteq> k) xs) k' = (if k' = k then None else map_of xs k')"
  by (induction xs) auto

lemma Header_set_lookup:
  "map_of (Header (Header_set k v c)) k'
     = (if k' = CanonicalMIMEHeaderKey k then (if v = [] then None else Some v)
        else map_of (Header c) k')"
  by (simp add: Header_set_def Let_def map_of_filter_key)

lemma canonical_keys [simp]:
  "CanonicalMIMEHeaderKey ''X-Request-ID'' = ''X-Request-Id''"
  "CanonicalMIMEHeaderKey ''Access-Control-Allow-Origin'' = ''Access-Control-Allow-Origin''"
  "CanonicalMIMEHeaderKey ''Access-Control-Allow-Methods'' = ''Access-Control-Allow-Methods''"
  "CanonicalMIMEHeaderKey ''Access-Control-Allow-Headers'' = ''Access-Control-Allow-Headers''"
  by code_simp+

lemma Header_set_fields [simp]:
  "Keys (Header_set k v c) = Keys c" "Errors (Header_set k v c) = Errors c"
  "Aborted (Header_set k v c) = Aborted c" "Req (Header_set k v c) = Req c"
  "Db (Header_set k v c) = Db c" "Status (Header_set k v c) = Status c"
  "Body (Header_set k v c) = Body c" "Written (Header_set k v c) = Written c"
  "World (Header_set k v c) = World c"
  by (simp_all add: Header_set_def Let_def)

lemma Set_key_fields [simp]:
  "Header (Set_key k v c) = Header c" "Errors (Set_key k v c) = Errors c"
  "Aborted (Set_key k v c) = Aborted c" "Req (Set_key k v c) = Req c"
  "Db (Set_key k v c) = Db c" "Status (Set_key k v c) = Status c"
  "Body (Set_key k v c) = Body c" "Written (Set_key k v c) = Written c"
  "World (Set_key k v c) = World c"
  "map_of (Keys (Set_key k v c)) k = Some v"
  by (simp_all add: Set_key_def)

lemma writeContentType_lookup:
  "k \<noteq> ''Content-Type'' \<Longrightarrow> map_of (Header (writeContentType v c)) k = map_of (Header c) k"
  by (simp add: writeContentType_def)

lemma AbortWithStatus_fields [simp]:
  "Header (AbortWithStatus code c) = Header c" "Keys (AbortWithStatus code c) = Keys c"
  "Errors (AbortWithStatus code c) = Errors c" "Aborted (AbortWithStatus code c) = True"
  "Db (AbortWithStatus code c) = Db c" "Body (AbortWithStatus code c) = Body c"
  "Written (AbortWithStatus code c) = True"
  "\<not> Written c \<Longrightarrow> Status (AbortWithStatus code c) = code"
  by (simp_all add: AbortWithStatus_def Status_set_def)

lemma serveError_fields [simp]:
  "Keys (serveError c) = Keys c" "Errors (serveError c) = Errors c" "Db (serveError c) = Db c"
  "Written c \<Longrightarrow> serveError c = c"
  by (simp_all add: serveError_def)

lemma serveError_lookup:
  "k \<noteq> ''Content-Type'' \<Longrightarrow> map_of (Header (serveError c)) k = map_of (Header c) k"
  by (simp add: serveError_def map_of_filter_key)

lemma length_EncodeToString: "length (EncodeToString b) = 2 * length b"
  by (induction b) (simp_all add: EncodeToString_def)

lemma length_randomString: "length (randomString n env) = n"
  by (simp add: randomString_def rand_Read_def length_EncodeToString)

lemma length_generateRequestID: "length (generateRequestID env) = 12"
  by (simp add: generateRequestID_def length_randomString)

text \<open>The context the handler of a route, or nothing, is run on.\<close>

lemma chain_unfold:
  "run_chain middlewares h (new_context req ps env d st) =
     (let rid = (if Header_Get ''X-Request-ID'' req = [] then generateRequestID env
                 else Header_Get ''X-Request-ID'' req)
      in ErrorHandler (CORS (\<lambda>c. if Aborted c then c else h c))
           (Header_set ''X-Request-ID'' rid (Set_key ''RequestID'' rid (new_context req ps env d st))))"
proof -
  have a: "\<not> Aborted (new_context req ps env d st)"
    by (simp add: new_context_def)
  have r: "run_chain [] h = (\<lambda>c. if Aborted c then c else h c)"
    by (rule ext) simp
  have e: "run_chain [ErrorHandler, CORS] h c = ErrorHandler (CORS (\<lambda>c. if Aborted c then c else h c)) c"
    if "\<not> Aborted c" for c
  proof -
    have "run_chain [CORS] h = (\<lambda>c. if Aborted c then c else CORS (run_chain [] h) c)"
      by (rule ext) simp
    then have "ErrorHandler (run_chain [CORS] h) c = ErrorHandler (CORS (run_chain [] h)) c"
      using that by (simp add: ErrorHandler_def CORS_def Let_def)
    then show ?thesis using that r by simp
  qed
  have l: "run_chain [Logger, Recovery, ErrorHandler, CORS] h c = run_chain [ErrorHandler, CORS] h c"
    if "\<not> Aborted c" for c
    using that by (simp add: Logger_def Recovery_def)
  let ?rid = "if Header_Get ''X-Request-ID'' req = [] then generateRequestID env
              else Header_Get ''X-Request-ID'' req"
  let ?c1 = "Header_set ''X-Request-ID'' ?rid (Set_key ''RequestID'' ?rid (new_context req ps env d st))"
  have a1: "\<not> Aborted ?c1"
    using a by simp
  have "run_chain middlewares h (new_context req ps env d st)
          = RequestID (run_chain [Logger, Recovery, ErrorHandler, CORS] h) (new_context req ps env d st)"
    using a by (simp add: middlewares_def)
  also have "\<dots> = run_chain [Logger, Recovery, ErrorHandler, CORS] h ?c1"
    by (simp add: RequestID_def GetHeader_def Let_def new_context_def del: run_chain.simps)
  also have "\<dots> = ErrorHandler (CORS (\<lambda>c. if Aborted c then c else h c)) ?c1"
    using l [OF a1] e [OF a1] by simp
  finally show ?thesis
    by (simp add: Let_def)
qed


lemma CORS_cases:
  "CORS nxt c =
     (let c3 = Header_set ''Access-Control-Allow-Headers''
                 ''Origin, Content-Type, Content-Length, Accept-Encoding, X-CSRF-Token, Authorization''
                 (Header_set ''Access-Control-Allow-Methods'' ''GET, POST, PUT, DELETE, OPTIONS''
                   (Header_set ''Access-Control-Allow-Origin'' ''*'' c))
      in if Method (Req c) = ''OPTIONS'' then AbortWithStatus 204 c3 else nxt c3)"
  by (simp add: CORS_def Let_def)

lemma chain_request_id:
  fixes req :: Request and env :: Env and d :: db and ps st h
  assumes h: "\<And>c. map_of (Header (h c)) ''X-Request-Id'' = map_of (Header c) ''X-Request-Id''
                  \<and> Keys (h c) = Keys c \<and> Errors (h c) = Errors c"
  defines "rid \<equiv> (if Header_Get ''X-Request-ID'' req = [] then generateRequestID env
                  else Header_Get ''X-Request-ID'' req)"
  defines "r \<equiv> run_chain middlewares h (new_context req ps env d st)"
  shows "map_of (Header r) ''X-Request-Id'' = Some rid \<and> map_of (Keys r) ''RequestID'' = Some rid
         \<and> Errors r = []"
proof -
  let ?c1 = "Header_set ''X-Request-ID'' rid (Set_key ''RequestID'' rid (new_context req ps env d st))"
  let ?n = "\<lambda>c. if Aborted c then c else h c"
  have ne: "rid \<noteq> []"
    using length_generateRequestID [of env] by (auto simp: rid_def)
  have c1: "map_of (Header ?c1) ''X-Request-Id'' = Some rid" "map_of (Keys ?c1) ''RequestID'' = Some rid"
    "Errors ?c1 = []"
    using ne by (simp_all add: Header_set_lookup new_context_def)
  have n: "map_of (Header (?n c)) ''X-Request-Id'' = map_of (Header c) ''X-Request-Id''
           \<and> Keys (?n c) = Keys c \<and> Errors (?n c) = Errors c" for c
    using h by simp
  let ?c3 = "Header_set ''Access-Control-Allow-Headers''
                 ''Origin, Content-Type, Content-Length, Accept-Encoding, X-CSRF-Token, Authorization''
                 (Header_set ''Access-Control-Allow-Methods'' ''GET, POST, PUT, DELETE, OPTIONS''
                   (Header_set ''Access-Control-Allow-Origin'' ''*'' ?c1))"
  have c3: "map_of (Header ?c3) ''X-Request-Id'' = Some rid"
    "map_of (Keys ?c3) ''RequestID'' = Some rid" "Errors ?c3 = []"
    using c1 by (simp_all add: Header_set_lookup)
  have cors: "map_of (Header (CORS ?n ?c1)) ''X-Request-Id'' = Some rid
              \<and> map_of (Keys (CORS ?n ?c1)) ''RequestID'' = Some rid \<and> Errors (CORS ?n ?c1) = []"
  proof (cases "Method (Req ?c1) = ''OPTIONS''")
    case True
    then have "CORS ?n ?c1 = AbortWithStatus 204 ?c3"
      unfolding CORS_cases Let_def by (rule if_P)
    then show ?thesis using c3 by simp
  next
    case False
    then have "CORS ?n ?c1 = ?n ?c3"
      unfolding CORS_cases Let_def by (rule if_not_P)
    then show ?thesis using c3 n [of ?c3] by simp
  qed
  then have "ErrorHandler (CORS ?n) ?c1 = CORS ?n ?c1"
    by (simp add: ErrorHandler_def)
  then have "r = CORS ?n ?c1"
    unfolding r_def chain_unfold Let_def rid_def by simp
  with cors show ?thesis by simp
qed

lemma prefix_generateRequestID: "take 4 (generateRequestID env) = ''req-''"
  by (simp add: generateRequestID_def)

lemma take_EncodeToString: "take (2 * n) (EncodeToString b) = EncodeToString (take n b)"
proof (induction b arbitrary: n)
  case Nil
  then show ?case by (simp add: EncodeToString_def)
next
  case (Cons v b)
  show ?case
  proof (cases n)
    case 0
    then show ?thesis by (simp add: EncodeToString_def)
  next
    case (Suc m)
    have "take (2 * m) (EncodeToString b) = EncodeToString (take m b)"
      by (rule Cons.IH)
    then show ?thesis
      using Suc by (simp add: EncodeToString_def)
  qed
qed

text \<open>
  The generated identifier: \<open>req-\<close> and the hexadecimal digits of the first four of the eight
  bytes read from \<open>crypto/rand\<close>, or \<open>req-abcdefgh\<close> when the read fails.
\<close>

lemma generateRequestID_bytes:
  "generateRequestID env =
     (case rand_Read 8 env of
        None \<Rightarrow> ''req-abcdefgh''
      | Some b \<Rightarrow> ''req-'' @ EncodeToString (take 4 b))"
proof (cases "RandFails env")
  case True
  have "map (\<lambda>i. charset ! (i mod length charset)) [0..<8] = ''abcdefgh''"
    by code_simp
  then show ?thesis
    using True by (simp add: generateRequestID_def randomString_def rand_Read_def)
next
  case False
  have "take 8 (EncodeToString b) = EncodeToString (take 4 b)" for b
    using take_EncodeToString [of 4 b] by simp
  then show ?thesis
    using False by (simp add: generateRequestID_def randomString_def rand_Read_def)
qed

lemma not_redirected_serve:
  assumes "\<not> redirected req" and "match_route (Method req) (URLPath req) = None"
  shows "handleHTTPRequest req env d
           = serveError (run_chain middlewares (\<lambda>c. c) (new_context req [] env d 404))"
  using assms by (simp add: handleHTTPRequest_def)

text \<open>
  Claim C6, amended. For every request the router does not answer itself with a
  trailing-slash redirect, whatever the environment and the store, the response carries the
  header \<open>X-Request-ID\<close> and the context the key \<open>RequestID\<close>, both equal to the request's header
  \<open>X-Request-ID\<close> (under any spelling of its name) when that is present and not empty, and to
  the generated identifier otherwise; the generated identifier is \<open>req-\<close> followed by the 8
  hexadecimal digits of the first four random bytes (by \<open>abcdefgh\<close> when the random source
  fails), so at least 8 characters long.
\<close>

theorem X_Request_ID_header:
  assumes "\<not> redirected req"
  shows "map_of (Header (handleHTTPRequest req env d)) (CanonicalMIMEHeaderKey ''X-Request-ID'')
     = Some (if Header_Get ''X-Request-ID'' req = [] then generateRequestID env
             else Header_Get ''X-Request-ID'' req)
   \<and> map_of (Keys (handleHTTPRequest req env d)) ''RequestID''
     = Some (if Header_Get ''X-Request-ID'' req = [] then generateRequestID env
             else Header_Get ''X-Request-ID'' req)
   \<and> 8 \<le> length (generateRequestID env)
   \<and> generateRequestID env =
       (case rand_Read 8 env of
          None \<Rightarrow> ''req-abcdefgh''
        | Some b \<Rightarrow> ''req-'' @ EncodeToString (take 4 b))"
proof (cases "match_route (Method req) (URLPath req)")
  case None
  have "map_of (Header ((\<lambda>c. c) c)) ''X-Request-Id'' = map_of (Header c) ''X-Request-Id''
        \<and> Keys ((\<lambda>c. c) c) = Keys c \<and> Errors ((\<lambda>c. c) c) = Errors c" for c :: Context
    by simp
  from chain_request_id [of "\<lambda>c. c", OF this, of req "[]" env d 404]
  have "map_of (Header (handleHTTPRequest req env d)) (CanonicalMIMEHeaderKey ''X-Request-ID'')
     = Some (if Header_Get ''X-Request-ID'' req = [] then generateRequestID env
             else Header_Get ''X-Request-ID'' req)
   \<and> map_of (Keys (handleHTTPRequest req env d)) ''RequestID''
     = Some (if Header_Get ''X-Request-ID'' req = [] then generateRequestID env
             else Header_Get ''X-Request-ID'' req)"
    by (simp add: not_redirected_serve [OF assms None] serveError_lookup)
  moreover have "8 \<le> length (generateRequestID env)"
    by (simp add: length_generateRequestID)
  ultimately show ?thesis
    using generateRequestID_bytes [of env] by blast
next
  case (Some hp)
  obtain h ps where hp: "hp = (h, ps)" by (cases hp)
  have "map_of (Header (h c)) ''X-Request-Id'' = map_of (Header c) ''X-Request-Id''
        \<and> Keys (h c) = Keys c \<and> Errors (h c) = Errors c" for c
    using routed_fields [of "Method req" "URLPath req" h ps c] Some hp
    by (simp add: writeContentType_lookup)
  from chain_request_id [of h, OF this, of req ps env d 200] Some hp
  have "map_of (Header (handleHTTPRequest req env d)) (CanonicalMIMEHeaderKey ''X-Request-ID'')
     = Some (if Header_Get ''X-Request-ID'' req = [] then generateRequestID env
             else Header_Get ''X-Request-ID'' req)
   \<and> map_of (Keys (handleHTTPRequest req env d)) ''RequestID''
     = Some (if Header_Get ''X-Request-ID'' req = [] then generateRequestID env
             else Header_Get ''X-Request-ID'' req)"
    by (simp add: handleHTTPRequest_def)
  moreover have "8 \<le> length (generateRequestID env)"
    by (simp add: length_generateRequestID)
  ultimately show ?thesis
    using generateRequestID_bytes [of env] by blast
qed

text \<open>
  Against claim C6 as stated: \<open>GET /api/v1/users/\<close> is answered by the router with a redirect
  to \<open>/api/v1/users\<close>; no middleware ran, and the response has the headers \<open>Content-Type\<close> and
  \<open>Location\<close> only.
\<close>

theorem redirect_without_request_id_counterexample:
  "Status (handleHTTPRequest (request ''GET'' [''api'', ''v1'', ''users'', []]) sample_env sample_db)
     = 301
   \<and> map fst (Header (handleHTTPRequest (request ''GET'' [''api'', ''v1'', ''users'', []])
                        sample_env sample_db))
     = [''Content-Type'', ''Location'']
   \<and> map_of (Header (handleHTTPRequest (request ''GET'' [''api'', ''v1'', ''users'', []])
                       sample_env sample_db)) (CanonicalMIMEHeaderKey ''X-Request-ID'')
     = None
   \<and> Keys (handleHTTPRequest (request ''GET'' [''api'', ''v1'', ''users'', []])
             sample_env sample_db) = []"
  by code_simp

text \<open>
  Claim C5. For a request whose method is \<open>OPTIONS\<close> the server answers 204 with no body,
  records no error and leaves the store untouched (no query runs); the chain gives the same
  result whatever handler stands at its end, so the routed handler is not run, and the
  error stage adds nothing to the response.
\<close>

theorem OPTIONS_short_circuit:
  assumes "Method req = ''OPTIONS''"
  shows "Status (handleHTTPRequest req env d) = 204
       \<and> Body (handleHTTPRequest req env d) = []
       \<and> Errors (handleHTTPRequest req env d) = []
       \<and> Db (handleHTTPRequest req env d) = d
       \<and> Status (run_chain middlewares h (new_context req ps env d st)) = 204
       \<and> Body (run_chain middlewares h (new_context req ps env d st)) = []
       \<and> Errors (run_chain middlewares h (new_context req ps env d st)) = []
       \<and> Db (run_chain middlewares h (new_context req ps env d st)) = d
       \<and> run_chain middlewares h (new_context req ps env d st)
           = run_chain middlewares h' (new_context req ps env d st)"
proof -
  have chain: "Status (run_chain middlewares g (new_context req qs env d s)) = 204
       \<and> Body (run_chain middlewares g (new_context req qs env d s)) = []
       \<and> Errors (run_chain middlewares g (new_context req qs env d s)) = []
       \<and> Db (run_chain middlewares g (new_context req qs env d s)) = d
       \<and> Written (run_chain middlewares g (new_context req qs env d s))" for g qs s
    unfolding chain_unfold Let_def CORS_cases ErrorHandler_def
    using assms by (simp add: new_context_def)
  have same: "run_chain middlewares g (new_context req qs env d s)
           = run_chain middlewares g' (new_context req qs env d s)" for g g' qs s
    unfolding chain_unfold Let_def CORS_cases ErrorHandler_def
    using assms by (simp add: new_context_def)
  have "match_route (Method req) (URLPath req) = None"
    using assms by (simp add: match_route_def)
  moreover have "\<not> redirected req"
    using assms by (simp add: redirected_def tsr_def)
  ultimately have "handleHTTPRequest req env d
               = run_chain middlewares (\<lambda>c. c) (new_context req [] env d 404)"
    using chain [of "\<lambda>c. c" "[]" 404] by (simp add: handleHTTPRequest_def)
  then show ?thesis
    using chain [of "\<lambda>c. c" "[]" 404] chain [of h ps st] same [of h ps st h']
    by (intro conjI) simp_all
qed


theorem X_Request_ID_header_witness:
  "\<not> redirected (request ''GET'' [''ping''])
   \<and> map_of (Header (handleHTTPRequest (request ''GET'' [''ping'']) sample_env sample_db))
       ''X-Request-Id'' = Some ''req-efcdab89''
   \<and> \<not> redirected ((request ''GET'' [''api'', ''v1'', ''users'', ''7''])
                      \<lparr>ReqHeader := [(''x-request-id'', ''abc'')]\<rparr>)
   \<and> map_of (Header (handleHTTPRequest
         ((request ''GET'' [''api'', ''v1'', ''users'', ''7''])\<lparr>ReqHeader := [(''x-request-id'', ''abc'')]\<rparr>)
         sample_env sample_db)) ''X-Request-Id'' = Some ''abc''
   \<and> generateRequestID (sample_env\<lparr>RandFails := True\<rparr>) = ''req-abcdefgh''"
proof -
  let ?r = "(request ''GET'' [''api'', ''v1'', ''users'', ''7''])\<lparr>ReqHeader := [(''x-request-id'', ''abc'')]\<rparr>"
  have n1: "\<not> redirected (request ''GET'' [''ping''])"
    by code_simp
  have n2: "\<not> redirected ?r"
    by code_simp
  have a: "Header_Get ''X-Request-ID'' (request ''GET'' [''ping'']) = []"
    by code_simp
  have b: "Header_Get ''X-Request-ID'' ?r = ''abc''"
    by code_simp
  have g: "generateRequestID sample_env = ''req-efcdab89''"
    by code_simp
  have f: "generateRequestID (sample_env\<lparr>RandFails := True\<rparr>) = ''req-abcdefgh''"
    by code_simp
  show ?thesis
    using X_Request_ID_header [OF n1, of sample_env sample_db]
      X_Request_ID_header [OF n2, of sample_env sample_db]
      n1 n2 a b g f
    by simp
qed

theorem OPTIONS_short_circuit_witness:
  "Method (request ''OPTIONS'' [''api'', ''v1'', ''users'']) = ''OPTIONS''
   \<and> Status (handleHTTPRequest (request ''OPTIONS'' [''api'', ''v1'', ''users'']) sample_env sample_db) = 204
   \<and> Body (handleHTTPRequest (request ''OPTIONS'' [''api'', ''v1'', ''users'']) sample_env sample_db) = []
   \<and> Db (handleHTTPRequest (request ''OPTIONS'' [''api'', ''v1'', ''users'']) sample_env sample_db) = sample_db
   \<and> run_chain middlewares h_CreateUser
        (new_context (request ''OPTIONS'' [''api'', ''v1'', ''users'']) [] sample_env sample_db 200)
      = run_chain middlewares h_GetAllUsers
        (new_context (request ''OPTIONS'' [''api'', ''v1'', ''users'']) [] sample_env sample_db 200)"
proof -
  have m: "Method (request ''OPTIONS'' [''api'', ''v1'', ''users'']) = ''OPTIONS''"
    by (simp add: request_def)
  show ?thesis
    using OPTIONS_short_circuit [OF m, of sample_env sample_db h_CreateUser "[]" 200 h_GetAllUsers] m
    by simp
qed

section \<open>Identifiers in the path\<close>

text \<open>
  What \<open>strconv.Atoi\<close> accepts: digits, with one sign in front at most, within 64 bits.
\<close>

lemma Atoi_Inr:
  assumes "Atoi s = Inr n"
  shows "\<exists>ds. ds \<noteq> [] \<and> \<not> list_ex (\<lambda>ch. \<not> is_digit ch) ds
              \<and> (s = ds \<or> s = CHR ''+'' # ds \<or> s = CHR ''-'' # ds)
              \<and> - (2 ^ 63) \<le> n \<and> n \<le> 2 ^ 63 - 1"
proof (cases s)
  case Nil
  then show ?thesis using assms by (simp add: Atoi_def)
next
  case (Cons ch r)
  show ?thesis
  proof (cases "ch = CHR ''-'' \<or> ch = CHR ''+''")
    case True
    then have "r \<noteq> [] \<and> \<not> list_ex (\<lambda>ch. \<not> is_digit ch) r \<and> - (2 ^ 63) \<le> n \<and> n \<le> 2 ^ 63 - 1"
      using assms Cons by (auto simp: Atoi_def Let_def split: if_splits)
    then show ?thesis using True Cons by blast
  next
    case False
    then have "\<not> list_ex (\<lambda>ch. \<not> is_digit ch) s \<and> - (2 ^ 63) \<le> n \<and> n \<le> 2 ^ 63 - 1"
      using assms Cons by (auto simp: Atoi_def Let_def split: if_splits)
    then show ?thesis using Cons by blast
  qed
qed

lemma parseUserID_rejects:
  assumes "\<not> (\<exists>n. Atoi s = Inr n \<and> 0 < n)"
  shows "parseUserID s = Inl (FmtErr ''invalid user ID'')
         \<or> parseUserID s = Inl (FmtErr ''user ID must be positive'')"
  using assms by (auto simp: parseUserID_def split: sum.splits)

lemma id_handlers_reject:
  assumes "\<not> (\<exists>n. Atoi (Param ''id'' c) = Inr n \<and> 0 < n)" and "\<not> Written c"
  shows "Status (h_GetUserByID c) = 400 \<and> Db (h_GetUserByID c) = Db c"
    and "Status (h_UpdateUser c) = 400 \<and> Db (h_UpdateUser c) = Db c"
    and "Status (h_DeleteUser c) = 400 \<and> Db (h_DeleteUser c) = Db c"
  using parseUserID_rejects [OF assms(1)] assms(2)
  by (auto simp: h_GetUserByID_def h_UpdateUser_def h_DeleteUser_def JSON_Status)

lemma chain_routed:
  assumes "Method req \<noteq> ''OPTIONS''"
    and "\<And>c. Errors (h c) = Errors c"
  shows "run_chain middlewares h (new_context req ps env d st)
         = h (Header_set ''Access-Control-Allow-Headers''
                 ''Origin, Content-Type, Content-Length, Accept-Encoding, X-CSRF-Token, Authorization''
                 (Header_set ''Access-Control-Allow-Methods'' ''GET, POST, PUT, DELETE, OPTIONS''
                   (Header_set ''Access-Control-Allow-Origin'' ''*''
                     (Header_set ''X-Request-ID''
                        (if Header_Get ''X-Request-ID'' req = [] then generateRequestID env
                         else Header_Get ''X-Request-ID'' req)
                        (Set_key ''RequestID''
                           (if Header_Get ''X-Request-ID'' req = [] then generateRequestID env
                            else Header_Get ''X-Request-ID'' req)
                           (new_context req ps env d st))))))"
  unfolding chain_unfold Let_def CORS_cases ErrorHandler_def
  using assms by (simp add: new_context_def)

text \<open>
  Claim C10. A request \<open>GET\<close>, \<open>PUT\<close> or \<open>DELETE /api/v1/users/{id}\<close> whose \<open>id\<close>
  \<open>strconv.Atoi\<close> does not read as an integer greater than 0 (it is no decimal integer,
  or it is zero or negative) is answered 400, and the store is as before: in particular
  its log of queries is unchanged, so no repository operation ran.
\<close>

theorem bad_id_is_400:
  assumes "m = ''GET'' \<and> s \<noteq> ''paginate'' \<or> m = ''PUT'' \<or> m = ''DELETE''"
    and "Method req = m" and "URLPath req = [''api'', ''v1'', ''users'', s]" and "s \<noteq> []"
    and "\<not> (\<exists>n. Atoi s = Inr n \<and> 0 < n)"
  shows "Status (handleHTTPRequest req env d) = 400 \<and> Db (handleHTTPRequest req env d) = d"
proof -
  let ?c = "Header_set ''Access-Control-Allow-Headers''
                 ''Origin, Content-Type, Content-Length, Accept-Encoding, X-CSRF-Token, Authorization''
                 (Header_set ''Access-Control-Allow-Methods'' ''GET, POST, PUT, DELETE, OPTIONS''
                   (Header_set ''Access-Control-Allow-Origin'' ''*''
                     (Header_set ''X-Request-ID''
                        (if Header_Get ''X-Request-ID'' req = [] then generateRequestID env
                         else Header_Get ''X-Request-ID'' req)
                        (Set_key ''RequestID''
                           (if Header_Get ''X-Request-ID'' req = [] then generateRequestID env
                            else Header_Get ''X-Request-ID'' req)
                           (new_context req [(''id'', s)] env d 200)))))"
  have p: "Param ''id'' ?c = s" "\<not> Written ?c" "Db ?c = d"
    by (simp_all add: Param_def lookup_def new_context_def Header_set_def Let_def Set_key_def)
  have no: "Method req \<noteq> ''OPTIONS''"
    using assms(1,2) by auto
  from assms(1) consider "m = ''GET''" "s \<noteq> ''paginate''" | "m = ''PUT''" | "m = ''DELETE''"
    by blast
  then show ?thesis
  proof cases
    case 1
    then have "match_route (Method req) (URLPath req) = Some (h_GetUserByID, [(''id'', s)])"
      using assms(2-4) by (simp add: match_route_def)
    then have "handleHTTPRequest req env d = h_GetUserByID ?c"
      using chain_routed [OF no, of h_GetUserByID] h_GetUserByID_fields
      by (simp add: handleHTTPRequest_def)
    then show ?thesis
      using id_handlers_reject(1) [of ?c] assms(5) p by simp
  next
    case 2
    then have "match_route (Method req) (URLPath req) = Some (h_UpdateUser, [(''id'', s)])"
      using assms(2-4) by (simp add: match_route_def)
    then have "handleHTTPRequest req env d = h_UpdateUser ?c"
      using chain_routed [OF no, of h_UpdateUser] h_UpdateUser_fields
      by (simp add: handleHTTPRequest_def)
    then show ?thesis
      using id_handlers_reject(2) [of ?c] assms(5) p by simp
  next
    case 3
    then have "match_route (Method req) (URLPath req) = Some (h_DeleteUser, [(''id'', s)])"
      using assms(2-4) by (simp add: match_route_def)
    then have "handleHTTPRequest req env d = h_DeleteUser ?c"
      using chain_routed [OF no, of h_DeleteUser] h_DeleteUser_fields
      by (simp add: handleHTTPRequest_def)
    then show ?thesis
      using id_handlers_reject(3) [of ?c] assms(5) p by simp
  qed
qed

theorem bad_id_is_400_witness:
  "(''DELETE'' = ''GET'' \<and> ''0'' \<noteq> ''paginate'' \<or> ''DELETE'' = ''PUT'' \<or> ''DELETE'' = ''DELETE'')
   \<and> Method (request ''DELETE'' [''api'', ''v1'', ''users'', ''0'']) = ''DELETE''
   \<and> URLPath (request ''DELETE'' [''api'', ''v1'', ''users'', ''0'']) = [''api'', ''v1'', ''users'', ''0'']
   \<and> ''0'' \<noteq> [] \<and> Atoi ''0'' = Inr 0
   \<and> Status (handleHTTPRequest (request ''DELETE'' [''api'', ''v1'', ''users'', ''0'']) sample_env sample_db) = 400
   \<and> Db (handleHTTPRequest (request ''DELETE'' [''api'', ''v1'', ''users'', ''0'']) sample_env sample_db) = sample_db
   \<and> Atoi ''7x'' = Inl (FmtErr ''strconv.Atoi: invalid syntax'')
   \<and> Status (handleHTTPRequest (request ''GET'' [''api'', ''v1'', ''users'', ''7x'']) sample_env sample_db) = 400
   \<and> Db (handleHTTPRequest (request ''GET'' [''api'', ''v1'', ''users'', ''7x'']) sample_env sample_db) = sample_db"
proof -
  have z: "Atoi ''0'' = Inr 0" by code_simp
  have x: "Atoi ''7x'' = Inl (FmtErr ''strconv.Atoi: invalid syntax'')" by code_simp
  have nz: "\<not> (\<exists>n. Atoi ''0'' = Inr n \<and> 0 < n)" using z by simp
  have nx: "\<not> (\<exists>n. Atoi ''7x'' = Inr n \<and> 0 < n)" using x by simp
  have a: "Status (handleHTTPRequest (request ''DELETE'' [''api'', ''v1'', ''users'', ''0'']) sample_env sample_db) = 400
   \<and> Db (handleHTTPRequest (request ''DELETE'' [''api'', ''v1'', ''users'', ''0'']) sample_env sample_db) = sample_db"
    by (rule bad_id_is_400 [of "''DELETE''" "''0''", OF _ _ _ _ nz]) (simp_all add: request_def)
  have b: "Status (handleHTTPRequest (request ''GET'' [''api'', ''v1'', ''users'', ''7x'']) sample_env sample_db) = 400
   \<and> Db (handleHTTPRequest (request ''GET'' [''api'', ''v1'', ''users'', ''7x'']) sample_env sample_db) = sample_db"
    by (rule bad_id_is_400 [of "''GET''" "''7x''", OF _ _ _ _ nx]) (simp_all add: request_def)
  show ?thesis
    using a b z x by (simp add: request_def)
qed

section \<open>Pagination parameters\<close>

lemma int32_id: "- (2 ^ 31) \<le> n \<Longrightarrow> n < 2 ^ 31 \<Longrightarrow> int32 n = n"
  by (simp add: int32_def)

lemma parseIntQuery_clamp:
  assumes "lo \<le> hi"
  shows "parseIntQuery v dflt lo hi =
           (if v = [] then Inr dflt
            else case Atoi v of
                   Inl e \<Rightarrow> Inl (FmtErr ''invalid integer value'')
                 | Inr n \<Rightarrow> Inr (max lo (min hi n)))"
  using assms by (auto simp: parseIntQuery_def Let_def split: sum.splits)

lemma parseIntQuery_range:
  assumes "parseIntQuery v dflt lo hi = Inr r" and "lo \<le> hi" and "lo \<le> dflt" and "dflt \<le> hi"
  shows "lo \<le> r \<and> r \<le> hi"
  using assms by (auto simp: parseIntQuery_clamp split: if_splits sum.splits)

text \<open>
  Claim C4, amended. A pagination parameter that is absent takes its default (10, 0); one
  that \<open>strconv.Atoi\<close> reads as an integer is clamped to the nearest bound of [1, 100]
  (limit) or [0, 1000000] (offset); one that is present and is no such integer is refused.
  The handler answers 400 without touching the store when a parameter is refused, and
  otherwise, on a store that answers, 200 with the page for the clamped window and the
  clamped limit and offset in the pagination metadata.
\<close>

theorem pagination_clamped_or_rejected:
  assumes "\<not> Written c"
  shows "parseIntQuery v 10 1 100 =
           (if v = [] then Inr 10
            else case Atoi v of
                   Inl e \<Rightarrow> Inl (FmtErr ''invalid integer value'')
                 | Inr n \<Rightarrow> Inr (max 1 (min 100 n)))
       \<and> parseIntQuery v 0 0 1000000 =
           (if v = [] then Inr 0
            else case Atoi v of
                   Inl e \<Rightarrow> Inl (FmtErr ''invalid integer value'')
                 | Inr n \<Rightarrow> Inr (max 0 (min 1000000 n)))
       \<and> ((\<exists>e. parseIntQuery (Query ''limit'' c) 10 1 100 = Inl e)
            \<or> (\<exists>e. parseIntQuery (Query ''offset'' c) 0 0 1000000 = Inl e)
           \<longrightarrow> Status (h_GetUsersWithPagination c) = 400
               \<and> Db (h_GetUsersWithPagination c) = Db c)
       \<and> (\<forall>lim off.
             parseIntQuery (Query ''limit'' c) 10 1 100 = Inr lim
           \<and> parseIntQuery (Query ''offset'' c) 0 0 1000000 = Inr off
           \<and> faults (Db c) = []
           \<longrightarrow> 1 \<le> lim \<and> lim \<le> 100 \<and> 0 \<le> off \<and> off \<le> 1000000
               \<and> Status (h_GetUsersWithPagination c) = 200
               \<and> Body (h_GetUsersWithPagination c) =
                   Body c @
                   [JObject
                     [(''users'',
                       JUsers (map toUserResponse
                         (map (\<lambda>r. list_row_to_user (select_list_row r))
                           (take (nat lim) (drop (nat off)
                             (order_by_created_at_desc (fst (next_scan (Db c))) (users (Db c)))))))),
                      (''pagination'',
                       JObject [(''limit'', JInt lim), (''offset'', JInt off),
                                (''total'', JInt (int (length (users (Db c)))))])]])"
proof (intro conjI allI impI)
  show "parseIntQuery v 10 1 100 =
           (if v = [] then Inr 10
            else case Atoi v of
                   Inl e \<Rightarrow> Inl (FmtErr ''invalid integer value'')
                 | Inr n \<Rightarrow> Inr (max 1 (min 100 n)))"
    by (rule parseIntQuery_clamp) simp
  show "parseIntQuery v 0 0 1000000 =
           (if v = [] then Inr 0
            else case Atoi v of
                   Inl e \<Rightarrow> Inl (FmtErr ''invalid integer value'')
                 | Inr n \<Rightarrow> Inr (max 0 (min 1000000 n)))"
    by (rule parseIntQuery_clamp) simp
next
  assume "(\<exists>e. parseIntQuery (Query ''limit'' c) 10 1 100 = Inl e)
            \<or> (\<exists>e. parseIntQuery (Query ''offset'' c) 0 0 1000000 = Inl e)"
  then have r: "Status (h_GetUsersWithPagination c) = 400 \<and> Db (h_GetUsersWithPagination c) = Db c"
    using assms by (auto simp: h_GetUsersWithPagination_def JSON_Status split: sum.splits)
  from r show "Status (h_GetUsersWithPagination c) = 400" by simp
  from r show "Db (h_GetUsersWithPagination c) = Db c" by simp
next
  fix lim off
  assume a: "parseIntQuery (Query ''limit'' c) 10 1 100 = Inr lim
           \<and> parseIntQuery (Query ''offset'' c) 0 0 1000000 = Inr off
           \<and> faults (Db c) = []"
  have l: "1 \<le> lim \<and> lim \<le> 100"
    using a parseIntQuery_range [of "Query ''limit'' c" 10 1 100 lim] by simp
  have f: "0 \<le> off \<and> off \<le> 1000000"
    using a parseIntQuery_range [of "Query ''offset'' c" 0 0 1000000 off] by simp
  from l show "1 \<le> lim" "lim \<le> 100" by simp_all
  from f show "0 \<le> off" "off \<le> 1000000" by simp_all
  have i: "int32 lim = lim" "int32 off = off"
    using l f by (simp_all add: int32_id)
  obtain d1 where p: "repo_GetUsersWithPagination lim off (Db c) =
     (Inr (map (\<lambda>r. list_row_to_user (select_list_row r))
             (take (nat lim) (drop (nat off)
               (order_by_created_at_desc (fst (next_scan (Db c))) (users (Db c)))))), d1)"
    and d1: "users d1 = users (Db c)" "faults d1 = []"
    using paged_nofault [of "Db c" lim off] a l f by auto
  have n: "repo_CountUsers d1 =
             (Inr (int (length (users (Db c)))), d1\<lparr>calls := calls d1 @ [''CountUsers'']\<rparr>)"
    using d1 by (simp add: repo_CountUsers_def q_CountUsers_def begin_query_nofault)
  have h: "h_GetUsersWithPagination c =
             JSON 200
               (JObject
                     [(''users'',
                       JUsers (map toUserResponse
                         (map (\<lambda>r. list_row_to_user (select_list_row r))
                           (take (nat lim) (drop (nat off)
                             (order_by_created_at_desc (fst (next_scan (Db c))) (users (Db c)))))))),
                      (''pagination'',
                       JObject [(''limit'', JInt lim), (''offset'', JInt off),
                                (''total'', JInt (int (length (users (Db c)))))])])
               (c\<lparr>Db := d1\<lparr>calls := calls d1 @ [''CountUsers'']\<rparr>\<rparr>)"
    using a i p n by (simp add: h_GetUsersWithPagination_def)
  show "Status (h_GetUsersWithPagination c) = 200"
    unfolding h using assms by (simp add: JSON_Status)
  show "Body (h_GetUsersWithPagination c) =
                   Body c @
                   [JObject
                     [(''users'',
                       JUsers (map toUserResponse
                         (map (\<lambda>r. list_row_to_user (select_list_row r))
                           (take (nat lim) (drop (nat off)
                             (order_by_created_at_desc (fst (next_scan (Db c))) (users (Db c)))))))),
                      (''pagination'',
                       JObject [(''limit'', JInt lim), (''offset'', JInt off),
                                (''total'', JInt (int (length (users (Db c)))))])]]"
    unfolding h by (simp add: JSON_def Let_def bodyAllowedForStatus_def writeContentType_def Status_set_def)
qed

theorem pagination_clamped_or_rejected_witness:
  "\<not> Written paginate_ctx
   \<and> parseIntQuery ''500'' 10 1 100 = Inr 100
   \<and> parseIntQuery (Query ''limit'' paginate_ctx) 10 1 100 = Inr 1
   \<and> parseIntQuery (Query ''offset'' paginate_ctx) 0 0 1000000 = Inr 0
   \<and> faults (Db paginate_ctx) = []
   \<and> Status (h_GetUsersWithPagination paginate_ctx) = 200
   \<and> Body (h_GetUsersWithPagination paginate_ctx) =
        [JObject
          [(''users'',
            JUsers [\<lparr>ur_ID = 10, ur_Username = ''userxxxxxxxxxx'',
                     ur_Email = ''xxxxxxxxxx@example.com'', ur_CreatedAt = 1010,
                     ur_UpdatedAt = 2010\<rparr>]),
           (''pagination'',
            JObject [(''limit'', JInt 1), (''offset'', JInt 0), (''total'', JInt 10)])]]"
proof -
  have w: "\<not> Written paginate_ctx"
    by (simp add: paginate_ctx_def new_context_def)
  have a: "Atoi ''500'' = Inr 500" by code_simp
  have l: "parseIntQuery (Query ''limit'' paginate_ctx) 10 1 100 = Inr 1" by code_simp
  have f: "parseIntQuery (Query ''offset'' paginate_ctx) 0 0 1000000 = Inr 0" by code_simp
  have n: "faults (Db paginate_ctx) = []"
    by (simp add: paginate_ctx_def new_context_def sample_db_def)
  have b: "Body paginate_ctx = []"
    by (simp add: paginate_ctx_def new_context_def)
  have u: "map toUserResponse
             (map (\<lambda>r. list_row_to_user (select_list_row r))
               (take (nat 1) (drop (nat 0) (order_by_created_at_desc (fst (next_scan (Db paginate_ctx))) (users (Db paginate_ctx))))))
           = [\<lparr>ur_ID = 10, ur_Username = ''userxxxxxxxxxx'',
                ur_Email = ''xxxxxxxxxx@example.com'', ur_CreatedAt = 1010,
                ur_UpdatedAt = 2010\<rparr>]"
    by code_simp
  have t: "int (length (users (Db paginate_ctx))) = 10"
    by (simp add: paginate_ctx_def new_context_def sample_db_def)
  from pagination_clamped_or_rejected [OF w, of "''500''"] a l f n
  have "parseIntQuery ''500'' 10 1 100 = Inr 100"
    and "Status (h_GetUsersWithPagination paginate_ctx) = 200"
    and "Body (h_GetUsersWithPagination paginate_ctx) =
                   Body paginate_ctx @
                   [JObject
                     [(''users'',
                       JUsers (map toUserResponse
                         (map (\<lambda>r. list_row_to_user (select_list_row r))
                           (take (nat 1) (drop (nat 0)
                             (order_by_created_at_desc (fst (next_scan (Db paginate_ctx))) (users (Db paginate_ctx)))))))),
                      (''pagination'',
                       JObject [(''limit'', JInt 1), (''offset'', JInt 0),
                                (''total'', JInt (int (length (users (Db paginate_ctx)))))])]]"
    by simp_all
  then show ?thesis
    using w l f n b u t by simp
qed

text \<open>
  Against claim C4 as stated: \<open>limit=abc\<close> and \<open>offset=99999999999999999999\<close> are
  refused with 400, not clamped.
\<close>

theorem pagination_rejects_counterexample:
  "parseIntQuery ''abc'' 10 1 100 = Inl (FmtErr ''invalid integer value'')
   \<and> Status (handleHTTPRequest (paginate_request [(''limit'', ''abc'')]) sample_env sample_db) = 400
   \<and> Body (handleHTTPRequest (paginate_request [(''limit'', ''abc'')]) sample_env sample_db)
       = [H_error ''Invalid limit parameter'']
   \<and> parseIntQuery ''99999999999999999999'' 0 0 1000000 = Inl (FmtErr ''invalid integer value'')
   \<and> Status (handleHTTPRequest (paginate_request [(''offset'', ''99999999999999999999'')])
               sample_env sample_db) = 400"
  by code_simp

section \<open>Conflicts\<close>

text \<open>
  The 409 branches that follow \<open>CreateUser\<close> and \<open>UpdateUser\<close> in the handlers are never
  taken: whatever error the query returned, the handler answers the error the repository
  made of it with 500.
\<close>

lemma write_conflict_unique_check:
  "write_conflict (unique_check e) what c = JSON 500 (H_error what) c"
  by (cases e) (simp_all add: write_conflict_def unique_check_def)

lemma repo_CreateUser_error:
  "repo_CreateUser now u d = ((Some e, u'), d') \<Longrightarrow> \<exists>e0. e = unique_check e0"
  by (auto simp: repo_CreateUser_def Let_def split: prod.splits sum.splits)

lemma repo_UpdateUser_error:
  "repo_UpdateUser now u d = ((Some e, u'), d') \<Longrightarrow> \<exists>e0. e = unique_check e0"
  by (auto simp: repo_UpdateUser_def Let_def split: prod.splits option.splits)

lemma write_conflict_Status:
  "\<not> Written c \<Longrightarrow> Status (write_conflict (unique_check e) what c) = 500"
  by (simp add: write_conflict_unique_check JSON_Status)

lemma h_CreateUser_409_only_from_UserExists:
  assumes "\<not> Written c" and "Status (h_CreateUser c) = 409"
  shows "\<exists>req. JSONBody (Req c) = Inr req
               \<and> fst (repo_UserExists (f_Email req) (Db c)) = Inr True"
proof (cases "JSONBody (Req c)")
  case (Inl err)
  then show ?thesis
    using assms by (simp add: h_CreateUser_def JSON_Status)
next
  case (Inr req)
  obtain x d1 where e: "repo_UserExists (f_Email req) (Db c) = (x, d1)"
    by (cases "repo_UserExists (f_Email req) (Db c)")
  let ?user = "\<lparr>ID = 0, Username = f_Username req, Email = f_Email req,
                 Password = (case HashResult (World c) of Inr h \<Rightarrow> h | Inl z \<Rightarrow> []),
                 CreatedAt = 0, UpdatedAt = 0\<rparr>"
  obtain r u' d2 where cr: "repo_CreateUser (Now (World c)) ?user d1 = ((r, u'), d2)"
    by (cases "repo_CreateUser (Now (World c)) ?user d1") auto
  have "x = Inr True"
  proof (rule ccontr)
    assume n: "x \<noteq> Inr True"
    have w: "\<not> Written (c\<lparr>Db := dd\<rparr>)" for dd
      using assms(1) by simp
    have "Status (h_CreateUser c) \<noteq> 409"
    proof (cases r)
      case None
      then show ?thesis
        using Inr e n cr w
        by (auto simp: h_CreateUser_def JSON_Status Let_def split: sum.splits)
    next
      case (Some er)
      then obtain e0 where "er = unique_check e0"
        using repo_CreateUser_error cr by blast
      then show ?thesis
        using Inr e n cr w Some
        by (auto simp: h_CreateUser_def JSON_Status Let_def write_conflict_Status
              split: sum.splits)
    qed
    with assms(2) show False by simp
  qed
  then show ?thesis using Inr e by simp
qed

lemma h_UpdateUser_never_409:
  assumes "\<not> Written c"
  shows "Status (h_UpdateUser c) \<noteq> 409"
proof -
  have w: "\<not> Written (c\<lparr>Db := dd\<rparr>)" for dd
    using assms by simp
  have u: "Status (case r of
                     None \<Rightarrow> JSON 200 obj (c\<lparr>Db := d2\<rparr>)
                   | Some err \<Rightarrow> write_conflict err what (c\<lparr>Db := d2\<rparr>)) \<noteq> 409"
    if up: "repo_UpdateUser now user d1 = ((r, u'), d2)" for now user d1 what obj r u' d2
  proof (cases r)
    case None
    then show ?thesis using w by (simp add: JSON_Status)
  next
    case (Some er)
    then obtain e0 where "er = unique_check e0"
      using repo_UpdateUser_error up by blast
    then show ?thesis using Some w by (simp add: write_conflict_Status)
  qed
  show ?thesis
    using assms w
    by (auto simp: h_UpdateUser_def JSON_Status Let_def u split: sum.splits prod.splits)
qed

text \<open>
  Claim C1 fails on the code. The store holds a user named \<open>userxxx\<close>; creating another
  with a new email reaches the storage, which reports the violation of
  \<open>users_username_key\<close>; the repository returns a \<open>PgError\<close> 23505 without the constraint
  name, and the handler, which looks for the constraint name, answers 500
  \<open>Failed to create user\<close>. An update that takes the email of another user is answered 500
  \<open>Failed to update user\<close> in the same way.
\<close>

theorem duplicate_username_is_500:
  "list_ex (\<lambda>r. row_username r = ''userxxx'') (users sample_db)
   \<and> fst (repo_UserExists ''new@example.com'' sample_db) = Inr False
   \<and> fst (q_CreateUser \<lparr>cp_Username = ''userxxx'', cp_Email = ''new@example.com'',
                          cp_Password = ''$2a$10$hash'', cp_CreatedAt = timestamptz 9000,
                          cp_UpdatedAt = timestamptz 9000\<rparr> sample_db)
       = Inl (unique_violation ''users_username_key'')
   \<and> fst (fst (repo_CreateUser 9000
              \<lparr>ID = 0, Username = ''userxxx'', Email = ''new@example.com'',
               Password = ''$2a$10$hash'', CreatedAt = 0, UpdatedAt = 0\<rparr> sample_db))
       = Some (PgErr \<lparr>Severity = [], Code = ''23505'', ConstraintName = [],
                      Message = ''user with this username already exists''\<rparr>)
   \<and> Status (handleHTTPRequest
         (post_users \<lparr>f_Username = ''userxxx'', f_Email = ''new@example.com'',
                      f_Password = ''password123''\<rparr>) sample_env sample_db) = 500
   \<and> Body (handleHTTPRequest
         (post_users \<lparr>f_Username = ''userxxx'', f_Email = ''new@example.com'',
                      f_Password = ''password123''\<rparr>) sample_env sample_db)
       = [H_error ''Failed to create user'']
   \<and> Status (handleHTTPRequest
         (put_user ''3'' \<lparr>f_Username = ''userxxx'', f_Email = ''xxxx@example.com'',
                          f_Password = []\<rparr>) sample_env sample_db) = 500
   \<and> Body (handleHTTPRequest
         (put_user ''3'' \<lparr>f_Username = ''userxxx'', f_Email = ''xxxx@example.com'',
                          f_Password = []\<rparr>) sample_env sample_db)
       = [H_error ''Failed to update user'']"
  by code_simp

section \<open>Delete\<close>

lemma repo_DeleteUser_nofault:
  "faults d = [] \<Longrightarrow>
   repo_DeleteUser i d =
     (None, d\<lparr>calls := calls d @ [''DeleteUser''], users := filter (\<lambda>r. row_id r \<noteq> i) (users d)\<rparr>)"
  by (simp add: repo_DeleteUser_def q_DeleteUser_def begin_query_nofault)

lemma h_DeleteUser_always_200:
  assumes "faults (Db c) = []" and "parseUserID (Param ''id'' c) = Inr i" and "\<not> Written c"
  shows "Status (h_DeleteUser c) = 200"
  using assms by (simp add: h_DeleteUser_def repo_DeleteUser_nofault JSON_Status)

text \<open>
  Claim C2 fails on the code. No row has the identifier 42; \<open>DeleteUser\<close> returns no error,
  and the endpoint answers 200 \<open>User deleted successfully\<close> with the table unchanged.
\<close>

theorem delete_missing_is_200:
  "find (\<lambda>r. row_id r = 42) (users sample_db) = None
   \<and> fst (repo_DeleteUser 42 sample_db) = None
   \<and> Status (handleHTTPRequest (request ''DELETE'' [''api'', ''v1'', ''users'', ''42''])
               sample_env sample_db) = 200
   \<and> Body (handleHTTPRequest (request ''DELETE'' [''api'', ''v1'', ''users'', ''42''])
             sample_env sample_db)
       = [JObject [(''message'', JString ''User deleted successfully'')]]
   \<and> users (Db (handleHTTPRequest (request ''DELETE'' [''api'', ''v1'', ''users'', ''42''])
                  sample_env sample_db)) = users sample_db"
  by code_simp

section \<open>Errors of the repository\<close>

text \<open>
  Against claim C3 as stated: a connection failure during \<open>CreateUser\<close> comes back as the
  driver's own error value, a missing row as the driver's \<open>pgx.ErrNoRows\<close> (which is not
  \<open>sql.ErrNoRows\<close>, the value the repository and the handlers compare with), and a uniqueness
  violation as a \<open>*pgconn.PgError\<close>.
\<close>

theorem raw_driver_error_counterexample:
  "fst (fst (repo_CreateUser 9000 john
               (sample_db\<lparr>faults := [Some (DriverErr ''connection refused'')]\<rparr>)))
     = Some (DriverErr ''connection refused'')
   \<and> driver_error_type (DriverErr ''connection refused'')
   \<and> fst (repo_GetUserByID 42 sample_db) = Inl PgxErrNoRows
   \<and> driver_error_type PgxErrNoRows
   \<and> PgxErrNoRows \<noteq> ErrNoRows
   \<and> fst (repo_GetUserByEmail ''nobody@example.com'' sample_db) = Inl PgxErrNoRows
   \<and> map_option driver_error_type
        (fst (fst (repo_CreateUser 9000 (john\<lparr>Username := ''userxxx''\<rparr>) sample_db)))
     = Some True
   \<and> map_option error_message
        (fst (fst (repo_CreateUser 9000 (john\<lparr>Username := ''userxxx''\<rparr>) sample_db)))
     = Some '': user with this username already exists (SQLSTATE 23505)''"
  by code_simp

text \<open>
  What the handlers make of the driver's value for a missing row: their comparison with
  \<open>sql.ErrNoRows\<close> fails, and reading or updating a user that does not exist is answered 500.
\<close>

lemma missing_user_is_500:
  "Status (handleHTTPRequest (request ''GET'' [''api'', ''v1'', ''users'', ''42''])
             sample_env sample_db) = 500
   \<and> Body (handleHTTPRequest (request ''GET'' [''api'', ''v1'', ''users'', ''42''])
             sample_env sample_db) = [H_error ''Failed to retrieve user'']
   \<and> Status (handleHTTPRequest
         (put_user ''42'' \<lparr>f_Username = ''nobody'', f_Email = ''nobody@example.com'',
                           f_Password = []\<rparr>) sample_env sample_db) = 500"
  by code_simp

lemma unique_check_cases:
  "unique_check e = e
   \<or> (\<exists>p q. e = PgErr p \<and> Code p = ''23505''
           \<and> unique_check e = PgErr q \<and> Code q = ''23505''
           \<and> ((ConstraintName p = ''users_email_unique'' \<or> ConstraintName p = ''users_email_key'')
                \<and> Message q = ''user with this email already exists''
              \<or> (ConstraintName p = ''users_username_unique''
                  \<or> ConstraintName p = ''users_username_key'')
                \<and> Message q = ''user with this username already exists''))"
proof (cases e)
  case (PgErr p)
  show ?thesis
    unfolding PgErr unique_check_def by simp
qed (simp_all add: unique_check_def)

lemma driver_error_type_unique_check:
  "driver_error_type (unique_check e) = driver_error_type e"
  by (cases e) (simp_all add: unique_check_def driver_error_type_def)

text \<open>
  Claim C3, amended. Every error a repository method returns is the error of its query:
  unchanged for every method but \<open>CreateUser\<close> and \<open>UpdateUser\<close> (for a missing row it is the
  driver's no-rows error), and those two return \<open>unique_check\<close> of it, that is the error
  itself or, for a \<open>*pgconn.PgError\<close> with code 23505 on one of the four named username or
  email constraints, a new \<open>*pgconn.PgError\<close> with code 23505 and a message naming the field.
  An error of a driver type stays of a driver type.
\<close>

theorem repository_passes_driver_errors:
  "(case fst (q_CreateUser \<lparr>cp_Username = Username u, cp_Email = Email u,
                            cp_Password = Password u, cp_CreatedAt = timestamptz now,
                            cp_UpdatedAt = timestamptz now\<rparr> d) of
      Inl e \<Rightarrow> fst (fst (repo_CreateUser now u d)) = Some (unique_check e)
    | Inr r \<Rightarrow> fst (fst (repo_CreateUser now u d)) = None)
   \<and> (case fst (q_UpdateUser \<lparr>up_ID = ID u, up_Username = Username u, up_Email = Email u,
                               up_UpdatedAt = timestamptz now\<rparr> d) of
        Some e \<Rightarrow> fst (fst (repo_UpdateUser now u d)) = Some (unique_check e)
      | None \<Rightarrow> fst (fst (repo_UpdateUser now u d)) = None)
   \<and> (unique_check e = e
       \<or> (\<exists>p q. e = PgErr p \<and> Code p = ''23505''
               \<and> unique_check e = PgErr q \<and> Code q = ''23505''
               \<and> ((ConstraintName p = ''users_email_unique''
                    \<or> ConstraintName p = ''users_email_key'')
                    \<and> Message q = ''user with this email already exists''
                  \<or> (ConstraintName p = ''users_username_unique''
                      \<or> ConstraintName p = ''users_username_key'')
                    \<and> Message q = ''user with this username already exists'')))
   \<and> driver_error_type (unique_check e) = driver_error_type e
   \<and> fst (repo_GetUserByID i d) = map_sum id sqlcUserToModelUser (fst (q_GetUserByID i d))
   \<and> fst (repo_GetUserByEmail s d) = map_sum id sqlcUserToModelUser (fst (q_GetUserByEmail s d))
   \<and> fst (repo_GetAllUsers d) = map_sum id (map list_row_to_user) (fst (q_GetAllUsers d))
   \<and> fst (repo_GetUsersWithPagination lim off d)
       = map_sum id (map list_row_to_user) (fst (q_GetUsersWithPagination lim off d))
   \<and> fst (repo_UpdatePassword now i s d)
       = fst (q_UpdatePassword \<lparr>pp_ID = i, pp_Password = s, pp_UpdatedAt = timestamptz now\<rparr> d)
   \<and> fst (repo_DeleteUser i d) = fst (q_DeleteUser i d)
   \<and> fst (repo_UserExists s d) = fst (q_UserExists s d)
   \<and> fst (repo_CountUsers d) = fst (q_CountUsers d)"
proof (intro conjI)
  show "case fst (q_CreateUser \<lparr>cp_Username = Username u, cp_Email = Email u,
                            cp_Password = Password u, cp_CreatedAt = timestamptz now,
                            cp_UpdatedAt = timestamptz now\<rparr> d) of
      Inl e \<Rightarrow> fst (fst (repo_CreateUser now u d)) = Some (unique_check e)
    | Inr r \<Rightarrow> fst (fst (repo_CreateUser now u d)) = None"
    by (simp add: repo_CreateUser_def Let_def split: prod.splits sum.splits)
  show "case fst (q_UpdateUser \<lparr>up_ID = ID u, up_Username = Username u, up_Email = Email u,
                               up_UpdatedAt = timestamptz now\<rparr> d) of
        Some e \<Rightarrow> fst (fst (repo_UpdateUser now u d)) = Some (unique_check e)
      | None \<Rightarrow> fst (fst (repo_UpdateUser now u d)) = None"
    by (simp add: repo_UpdateUser_def Let_def split: prod.splits option.splits)
  show "unique_check e = e
       \<or> (\<exists>p q. e = PgErr p \<and> Code p = ''23505''
               \<and> unique_check e = PgErr q \<and> Code q = ''23505''
               \<and> ((ConstraintName p = ''users_email_unique''
                    \<or> ConstraintName p = ''users_email_key'')
                    \<and> Message q = ''user with this email already exists''
                  \<or> (ConstraintName p = ''users_username_unique''
                      \<or> ConstraintName p = ''users_username_key'')
                    \<and> Message q = ''user with this username already exists''))"
    by (rule unique_check_cases)
  show "driver_error_type (unique_check e) = driver_error_type e"
    by (rule driver_error_type_unique_check)
  show "fst (repo_GetUserByID i d) = map_sum id sqlcUserToModelUser (fst (q_GetUserByID i d))"
    by (simp add: repo_GetUserByID_def split: prod.splits sum.splits)
  show "fst (repo_GetUserByEmail s d) = map_sum id sqlcUserToModelUser (fst (q_GetUserByEmail s d))"
    by (simp add: repo_GetUserByEmail_def split: prod.splits sum.splits)
  show "fst (repo_GetAllUsers d) = map_sum id (map list_row_to_user) (fst (q_GetAllUsers d))"
    by (simp add: repo_GetAllUsers_def split: prod.splits sum.splits)
  show "fst (repo_GetUsersWithPagination lim off d)
       = map_sum id (map list_row_to_user) (fst (q_GetUsersWithPagination lim off d))"
    by (simp add: repo_GetUsersWithPagination_def split: prod.splits sum.splits)
  show "fst (repo_UpdatePassword now i s d)
       = fst (q_UpdatePassword \<lparr>pp_ID = i, pp_Password = s, pp_UpdatedAt = timestamptz now\<rparr> d)"
    by (simp add: repo_UpdatePassword_def Let_def split: prod.splits option.splits)
  show "fst (repo_DeleteUser i d) = fst (q_DeleteUser i d)"
    by (simp add: repo_DeleteUser_def split: prod.splits option.splits)
  show "fst (repo_UserExists s d) = fst (q_UserExists s d)"
    by (simp add: repo_UserExists_def split: prod.splits sum.splits)
  show "fst (repo_CountUsers d) = fst (q_CountUsers d)"
    by (simp add: repo_CountUsers_def split: prod.splits sum.splits)
qed

theorem repository_passes_driver_errors_witness:
  "fst (q_CreateUser \<lparr>cp_Username = ''userxxx'', cp_Email = ''john@example.com'',
                      cp_Password = ''$2a$10$hash'', cp_CreatedAt = timestamptz 9000,
                      cp_UpdatedAt = timestamptz 9000\<rparr> sample_db)
     = Inl (unique_violation ''users_username_key'')
   \<and> fst (fst (repo_CreateUser 9000 (john\<lparr>Username := ''userxxx''\<rparr>) sample_db))
     = Some (unique_check (unique_violation ''users_username_key''))
   \<and> unique_check (unique_violation ''users_username_key'')
       \<noteq> unique_violation ''users_username_key''
   \<and> (\<exists>q. unique_check (unique_violation ''users_username_key'') = PgErr q
          \<and> Code q = ''23505'' \<and> Message q = ''user with this username already exists'')
   \<and> driver_error_type (unique_check (unique_violation ''users_username_key''))
   \<and> fst (q_GetUserByID 42 sample_db) = Inl PgxErrNoRows
   \<and> fst (repo_GetUserByID 42 sample_db) = Inl PgxErrNoRows"
proof -
  have q: "fst (q_CreateUser \<lparr>cp_Username = ''userxxx'', cp_Email = ''john@example.com'',
                      cp_Password = ''$2a$10$hash'', cp_CreatedAt = timestamptz 9000,
                      cp_UpdatedAt = timestamptz 9000\<rparr> sample_db)
     = Inl (unique_violation ''users_username_key'')"
    by code_simp
  have j: "Username (john\<lparr>Username := ''userxxx''\<rparr>) = ''userxxx''"
    "Email (john\<lparr>Username := ''userxxx''\<rparr>) = ''john@example.com''"
    "Password (john\<lparr>Username := ''userxxx''\<rparr>) = ''$2a$10$hash''"
    by (simp_all add: john_def)
  have c: "unique_check (unique_violation ''users_username_key'')
             \<noteq> unique_violation ''users_username_key''"
    by code_simp
  have n: "ConstraintName p = ''users_username_key''"
    if "unique_violation ''users_username_key'' = PgErr p" for p
    using that by (auto simp: unique_violation_def)
  have g: "fst (q_GetUserByID 42 sample_db) = Inl PgxErrNoRows"
    by code_simp
  have t: "driver_error_type (unique_violation ''users_username_key'')"
    by (simp add: unique_violation_def driver_error_type_def)
  from repository_passes_driver_errors
         [where u = "john\<lparr>Username := ''userxxx''\<rparr>" and now = 9000 and d = sample_db
            and e = "unique_violation ''users_username_key''" and i = 42]
  have r: "fst (fst (repo_CreateUser 9000 (john\<lparr>Username := ''userxxx''\<rparr>) sample_db))
          = Some (unique_check (unique_violation ''users_username_key''))"
    and u: "unique_check (unique_violation ''users_username_key'')
              = unique_violation ''users_username_key''
       \<or> (\<exists>p q. unique_violation ''users_username_key'' = PgErr p \<and> Code p = ''23505''
               \<and> unique_check (unique_violation ''users_username_key'') = PgErr q
               \<and> Code q = ''23505''
               \<and> ((ConstraintName p = ''users_email_unique''
                    \<or> ConstraintName p = ''users_email_key'')
                    \<and> Message q = ''user with this email already exists''
                  \<or> (ConstraintName p = ''users_username_unique''
                      \<or> ConstraintName p = ''users_username_key'')
                    \<and> Message q = ''user with this username already exists''))"
    and y: "driver_error_type (unique_check (unique_violation ''users_username_key''))"
    and i: "fst (repo_GetUserByID 42 sample_db) = Inl PgxErrNoRows"
    using q j g t by simp_all
  from u c n
  have "\<exists>q. unique_check (unique_violation ''users_username_key'') = PgErr q
          \<and> Code q = ''23505'' \<and> Message q = ''user with this username already exists''"
    by fastforce
  then show ?thesis
    using q r c y g i by blast
qed


end
